theory Spec2Isabelle
  imports Complex_Main "HOL-Library.List_Lexorder" "HOL-Library.Char_ord"
begin

section \<open>Python values the backend relies on\<close>

subsection \<open>Slices\<close>

text \<open>
  \<^verbatim>\<open>xs[i:j]\<close> on a Python sequence: a negative bound counts from the end, and both
  bounds are clamped into \<open>0 .. len(xs)\<close>; an empty range gives the empty sequence.
\<close>

definition py_slice :: "'a list \<Rightarrow> int \<Rightarrow> int \<Rightarrow> 'a list" where
  "py_slice xs i j =
     (let n = int (length xs);
          lo = (if i < 0 then max (i + n) 0 else min i n);
          hi = (if j < 0 then max (j + n) 0 else min j n)
      in take (nat (hi - lo)) (drop (nat lo) xs))"

subsection \<open>Exceptions\<close>

text \<open>
  The exceptions that the modelled paths raise or catch. \<open>HTTPException\<close> carries
  the status code and the detail; the others carry their message.
  \<^verbatim>\<open>HTTPException\<close>, \<^verbatim>\<open>JSONDecodeError\<close> and the rest are all subclasses
  of Python's \<^verbatim>\<open>Exception\<close>; \<^verbatim>\<open>JSONDecodeError\<close> is a subclass of
  \<^verbatim>\<open>ValueError\<close>.
\<close>

datatype exn =
    HTTPException nat string
  | JSONDecodeError string
  | ValueError string
  | TypeError string
  | ZeroDivisionError string
  | IndexError string
  | OtherError string

text \<open>
  Sequencing of steps that may raise: the first exception ends the computation.
\<close>

definition try_bind :: "exn + 'a \<Rightarrow> ('a \<Rightarrow> exn + 'b) \<Rightarrow> exn + 'b" where
  "try_bind m f = (case m of Inl e \<Rightarrow> Inl e | Inr x \<Rightarrow> f x)"

subsection \<open>Decimal rendering of integers\<close>

text \<open>\<^verbatim>\<open>str(n)\<close> and \<^verbatim>\<open>f"{n}"\<close> for a non-negative integer.\<close>

definition digit_char :: "nat \<Rightarrow> char" where
  "digit_char d = char_of (48 + d)"

fun str_nat :: "nat \<Rightarrow> string" where
  "str_nat n = (if n < 10 then [digit_char n] else str_nat (n div 10) @ [digit_char (n mod 10)])"

declare str_nat.simps [simp del]


text \<open>
  \<^verbatim>\<open>str(e)\<close> of an exception. Starlette's \<^verbatim>\<open>HTTPException.__str__\<close> returns
  \<^verbatim>\<open>f"{self.status_code}: {self.detail}"\<close>; the others print their message.
\<close>

fun str_exn :: "exn \<Rightarrow> string" where
  "str_exn (HTTPException code detail) = str_nat code @ '': '' @ detail"
| "str_exn (JSONDecodeError m) = m"
| "str_exn (ValueError m) = m"
| "str_exn (TypeError m) = m"
| "str_exn (ZeroDivisionError m) = m"
| "str_exn (IndexError m) = m"
| "str_exn (OtherError m) = m"

text \<open>
  The handler that closes most endpoints:
  \<^verbatim>\<open>
  except Exception as e:
      raise HTTPException(status_code=500, detail=str(e))
  \<close>
  It catches every exception raised in the body, an \<^verbatim>\<open>HTTPException\<close> included.
\<close>

definition handle_500 :: "exn + 'a \<Rightarrow> exn + 'a" where
  "handle_500 r = (case r of Inl e \<Rightarrow> Inl (HTTPException 500 (str_exn e)) | Inr x \<Rightarrow> Inr x)"

text \<open>
  The status line of the HTTP response: 200 for a returned value, the status code of an
  \<^verbatim>\<open>HTTPException\<close>, and 500 for any other exception that reaches the framework.
\<close>

fun http_status :: "exn + 'a \<Rightarrow> nat" where
  "http_status (Inr x) = 200"
| "http_status (Inl (HTTPException code detail)) = code"
| "http_status (Inl e) = 500"

subsection \<open>Whitespace\<close>

text \<open>
  A \<open>char\<close> of a response text stands for a Unicode code point below 256; a response
  with a code point from 256 on is not a value of the model. \<^verbatim>\<open>str.strip()\<close> and the
  regular expression class \<^verbatim>\<open>\s\<close> use the same test on a character. Below 256 it
  holds of tab, line feed, vertical tab, form feed, carriage return, the four separators
  \<open>0x1c .. 0x1f\<close>, the space, the next-line control \<open>0x85\<close> and the no-break space
  \<open>0xa0\<close>.
\<close>

definition is_space :: "char \<Rightarrow> bool" where
  "is_space c =
     (let k = of_char c :: nat
      in (9 \<le> k \<and> k \<le> 13) \<or> (28 \<le> k \<and> k \<le> 32) \<or> k = 133 \<or> k = 160)"

definition lstrip :: "string \<Rightarrow> string" where
  "lstrip s = dropWhile is_space s"

definition rstrip :: "string \<Rightarrow> string" where
  "rstrip s = rev (dropWhile is_space (rev s))"

definition strip :: "string \<Rightarrow> string" where
  "strip s = rstrip (lstrip s)"

section \<open>Chunker: \<^verbatim>\<open>chunk_text\<close>\<close>

text \<open>
  \<^verbatim>\<open>
  def chunk_text(text, chunk_size=1000, overlap=200):
      chunks = []
      start = 0
      text_length = len(text)
      while start < text_length:
          end = start + chunk_size
          chunk = text[start:end]
          chunks.append(chunk)
          start += chunk_size - overlap
      return chunks
  \<close>
  The \<^verbatim>\<open>while\<close> loop has no bound of its own, so it is a partial function into
  \<open>option\<close>: \<open>None\<close> is a run that never returns.
\<close>

partial_function (option) chunk_loop ::
  "string \<Rightarrow> int \<Rightarrow> int \<Rightarrow> int \<Rightarrow> string list \<Rightarrow> string list option" where
  "chunk_loop text chunk_size overlap start chunks =
     (if start < int (length text)
      then chunk_loop text chunk_size overlap (start + (chunk_size - overlap))
             (chunks @ [py_slice text start (start + chunk_size)])
      else Some chunks)"

declare chunk_loop.simps [code]

definition chunk_text :: "string \<Rightarrow> int \<Rightarrow> int \<Rightarrow> string list option" where
  "chunk_text text chunk_size overlap = chunk_loop text chunk_size overlap 0 []"

text \<open>Every call site passes the text only: \<^verbatim>\<open>chunk_text(text)\<close>.\<close>

definition chunk_text_default :: "string \<Rightarrow> string list option" where
  "chunk_text_default text = chunk_text text 1000 200"

text \<open>
  Putting the windows back together, knowing the overlap: the first chunk, then every
  later chunk without the \<open>ov\<close> characters it repeats.
\<close>

definition reconstruct :: "nat \<Rightarrow> 'a list list \<Rightarrow> 'a list" where
  "reconstruct ov cs = (case cs of [] \<Rightarrow> [] | c # rest \<Rightarrow> c @ concat (map (drop ov) rest))"

section \<open>Structured output: extraction, validation, fallback\<close>

subsection \<open>JSON values\<close>

text \<open>
  What \<^verbatim>\<open>json.loads\<close> returns: \<^verbatim>\<open>None\<close>, a bool, an int, a float, a str, a list or
  a dict (kept as an association list, read with \<open>map_of\<close>). The parser itself belongs
  to Python's standard library; the functions below take it as the parameter
  \<open>json_loads\<close>, with \<open>None\<close> for a \<^verbatim>\<open>JSONDecodeError\<close>.
\<close>

datatype json =
    JNull
  | JBool bool
  | JInt int
  | JFloat rat
  | JStr string
  | JArr "json list"
  | JObj "(string \<times> json) list"

fun is_substring :: "string \<Rightarrow> string \<Rightarrow> bool" where
  "is_substring k [] = (k = [])"
| "is_substring k (c # cs) = (take (length k) (c # cs) = k \<or> is_substring k cs)"

text \<open>
  \<^verbatim>\<open>key in value\<close>: key membership on a dict, element membership on a list, substring
  on a str, and a \<^verbatim>\<open>TypeError\<close> on everything else.
\<close>

fun py_in :: "string \<Rightarrow> json \<Rightarrow> exn + bool" where
  "py_in k (JObj kvs) = Inr (k \<in> set (map fst kvs))"
| "py_in k (JArr xs) = Inr (JStr k \<in> set xs)"
| "py_in k (JStr s) = Inr (is_substring k s)"
| "py_in k _ = Inl (TypeError ''argument is not iterable'')"

text \<open>\<^verbatim>\<open>value[key]\<close> with a str key: defined on a dict only.\<close>

fun py_getitem :: "json \<Rightarrow> string \<Rightarrow> exn + json" where
  "py_getitem (JObj kvs) k =
     (case map_of kvs k of Some v \<Rightarrow> Inr v | None \<Rightarrow> Inl (OtherError ''KeyError''))"
| "py_getitem _ k = Inl (TypeError ''indices must be integers'')"

text \<open>\<^verbatim>\<open>value.get(key, default)\<close>: a method of dict only.\<close>

fun py_get :: "json \<Rightarrow> string \<Rightarrow> json \<Rightarrow> exn + json" where
  "py_get (JObj kvs) k dflt = (case map_of kvs k of Some v \<Rightarrow> Inr v | None \<Rightarrow> Inr dflt)"
| "py_get _ k dflt = Inl (OtherError ''AttributeError'')"

subsection \<open>Locating the JSON text\<close>

text \<open>
  \<^verbatim>\<open>re.sub(r'^```json\s*', '', s)\<close> and \<^verbatim>\<open>re.sub(r'^```\s*', '', s)\<close>: without the
  multi-line flag \<^verbatim>\<open>^\<close> matches at the start of the string only, so at most the leading
  marker and the whitespace after it are removed.
\<close>

definition starts_with :: "string \<Rightarrow> string \<Rightarrow> bool" where
  "starts_with p s = (take (length p) s = p)"

definition sub_leading :: "string \<Rightarrow> string \<Rightarrow> string" where
  "sub_leading marker s =
     (if starts_with marker s then dropWhile is_space (drop (length marker) s) else s)"

text \<open>
  \<^verbatim>\<open>re.sub(r'\s*```$', '', s)\<close>: \<^verbatim>\<open>$\<close> matches at the end of the string and just
  before a line feed that ends the string. The match starts at the whitespace run in front
  of the closing marker.
\<close>

definition sub_trailing_fence :: "string \<Rightarrow> string" where
  "sub_trailing_fence s =
     (let r = rev s in
      if starts_with ''```'' r then rev (dropWhile is_space (drop 3 r))
      else if starts_with (CHR 0x0A # ''```'') r
        then rev (CHR 0x0A # dropWhile is_space (drop 4 r))
      else s)"

text \<open>
  \<^verbatim>\<open>re.search(r'\{[\s\S]*\}', s)\<close>: the leftmost match starts at the first
  \<^verbatim>\<open>{\<close>; the star is greedy, so the match runs to the last \<^verbatim>\<open>}\<close> of the string.
  There is no match when no \<^verbatim>\<open>}\<close> follows the first \<^verbatim>\<open>{\<close>.
\<close>

definition search_object :: "string \<Rightarrow> string option" where
  "search_object s =
     (case dropWhile (\<lambda>c. c \<noteq> CHR ''{'') s of
        [] \<Rightarrow> None
      | b # t \<Rightarrow>
          (case dropWhile (\<lambda>c. c \<noteq> CHR ''}'') (rev t) of
             [] \<Rightarrow> None
           | r \<Rightarrow> Some (b # rev r)))"

text \<open>
  The text handed to \<^verbatim>\<open>json.loads\<close> when a theory or a coding answer is evaluated
  (\<^verbatim>\<open>submit_mock_test\<close>):
  \<^verbatim>\<open>
  eval_text = eval_completion.choices[0].message.content.strip()
  eval_text = re.sub(r'^```json\s*', '', eval_text)
  eval_text = re.sub(r'^```\s*', '', eval_text)
  eval_text = re.sub(r'\s*```$', '', eval_text)
  eval_text = eval_text.strip()
  json_match = re.search(r'\{[\s\S]*\}', eval_text)
  if json_match:
      eval_text = json_match.group()
  \<close>
\<close>

definition clean_eval_text :: "string \<Rightarrow> string" where
  "clean_eval_text content =
     (let eval_text = strip content;
          eval_text = sub_leading ''```json'' eval_text;
          eval_text = sub_leading ''```'' eval_text;
          eval_text = sub_trailing_fence eval_text;
          eval_text = strip eval_text
      in case search_object eval_text of Some m \<Rightarrow> m | None \<Rightarrow> eval_text)"

text \<open>
  Interview scoring (\<^verbatim>\<open>end_interview\<close>) searches the raw response, with no stripping:
  \<^verbatim>\<open>
  json_match = re.search(r'\{[\s\S]*\}', scoring_text)
  if json_match:
      scoring_data = json.loads(json_match.group())
  else:
      scoring_data = { "overall_score": 75, ... }
  \<close>
  A \<^verbatim>\<open>JSONDecodeError\<close> here is not caught locally; it leaves through the endpoint's
  handler.
\<close>

definition interview_fallback :: json where
  "interview_fallback = JObj
     [(''overall_score'', JInt 75),
      (''communication_score'', JInt 75),
      (''technical_score'', JInt 70),
      (''problem_solving_score'', JInt 75),
      (''strengths'', JArr [JStr ''Participated actively'', JStr ''Showed engagement'',
         JStr ''Attempted all questions'']),
      (''improvements'', JArr [JStr ''Practice more technical concepts'',
         JStr ''Provide more detailed examples'', JStr ''Work on time management'']),
      (''recommendations'', JArr [JStr ''Study common interview questions'',
         JStr ''Practice mock interviews'', JStr ''Review fundamental concepts''])]"

definition interview_scoring_data :: "(string \<Rightarrow> json option) \<Rightarrow> string \<Rightarrow> exn + json" where
  "interview_scoring_data json_loads scoring_text =
     (case search_object scoring_text of
        Some m \<Rightarrow>
          (case json_loads m of
             Some v \<Rightarrow> Inr v
           | None \<Rightarrow> Inl (JSONDecodeError ''json.loads''))
      | None \<Rightarrow> Inr interview_fallback)"

text \<open>
  The response that the specification gives as its example: the words \<^verbatim>\<open>Sure!\<close>, an
  opening \<^verbatim>\<open>```json\<close> fence, a line feed, the object
  \<^verbatim>\<open>{"score": 80, "feedback": "ok"}\<close>, a line feed and the closing fence.
  \<open>CHR 0x22\<close> is the double quote and \<open>CHR 0x0A\<close> the line feed.
\<close>

definition dq :: string where
  "dq = [CHR 0x22]"

definition example_object :: string where
  "example_object =
     ''{'' @ dq @ ''score'' @ dq @ '': 80, '' @ dq @ ''feedback'' @ dq @ '': '' @ dq @ ''ok'' @ dq
       @ ''}''"

definition example_response :: string where
  "example_response = ''Sure! ```json'' @ [CHR 0x0A] @ example_object @ [CHR 0x0A] @ ''```''"

text \<open>The same object followed by a remark that has braces of its own.\<close>

definition example_with_remark :: string where
  "example_with_remark = example_object @ '' Note: {partial credit}''"

text \<open>
  The specification's wording of the extraction step, for comparison with
  \<open>search_object\<close>: the first balanced \<^verbatim>\<open>{...}\<close>, found by scanning brackets with a
  depth counter from the first \<^verbatim>\<open>{\<close>.
\<close>

fun scan_balanced :: "nat \<Rightarrow> string \<Rightarrow> string option" where
  "scan_balanced depth [] = None"
| "scan_balanced depth (c # cs) =
     (if c = CHR ''{'' then map_option ((#) c) (scan_balanced (Suc depth) cs)
      else if c = CHR ''}'' then
        (if depth \<le> 1 then Some [c] else map_option ((#) c) (scan_balanced (depth - 1) cs))
      else map_option ((#) c) (scan_balanced depth cs))"

definition spec_first_balanced_object :: "string \<Rightarrow> string option" where
  "spec_first_balanced_object s = scan_balanced 0 (dropWhile (\<lambda>c. c \<noteq> CHR ''{'') s)"

subsection \<open>Validation and fallback of a grading response\<close>

text \<open>
  \<^verbatim>\<open>
  try:
      evaluation = json.loads(eval_text)
      if "score" not in evaluation or "feedback" not in evaluation:
          raise ValueError("Missing required fields in evaluation")
  except (json.JSONDecodeError, ValueError) as e:
      evaluation = { "score": 50, ... }
  \<close>
  The handler catches the decode error and the \<^verbatim>\<open>ValueError\<close>; a \<^verbatim>\<open>TypeError\<close>
  from \<^verbatim>\<open>in\<close> on a value that is no container is not caught here.
\<close>

definition parse_evaluation :: "(string \<Rightarrow> json option) \<Rightarrow> json \<Rightarrow> string \<Rightarrow> exn + json" where
  "parse_evaluation json_loads fallback eval_text =
     (case json_loads eval_text of
        None \<Rightarrow> Inr fallback
      | Some evaluation \<Rightarrow>
          try_bind (py_in ''score'' evaluation) (\<lambda>has_score.
            if \<not> has_score then Inr fallback
            else try_bind (py_in ''feedback'' evaluation) (\<lambda>has_feedback.
              if \<not> has_feedback then Inr fallback else Inr evaluation)))"

definition theory_fallback :: json where
  "theory_fallback = JObj
     [(''score'', JInt 50),
      (''feedback'', JStr (''Your answer has been recorded but could not be fully evaluated. ''
         @ ''Consider providing more detail and covering the key concepts.'')),
      (''covered_points'', JArr []),
      (''missing_points'', JArr [])]"

definition coding_fallback :: json where
  "coding_fallback = JObj
     [(''score'', JInt 50),
      (''correctness'', JStr ''Code has syntax errors or incomplete implementation''),
      (''code_quality'', JStr ''Needs improvement''),
      (''test_results'', JArr []),
      (''feedback'', JStr (''The code appears incomplete or has errors. ''
         @ ''Please review the function signature and ensure proper implementation.'')),
      (''suggestions'', JArr [JStr ''Complete the function implementation'',
         JStr ''Fix any syntax errors'', JStr ''Test with provided test cases''])]"

definition theory_evaluation :: "(string \<Rightarrow> json option) \<Rightarrow> string \<Rightarrow> exn + json" where
  "theory_evaluation json_loads content =
     parse_evaluation json_loads theory_fallback (clean_eval_text content)"

definition coding_evaluation :: "(string \<Rightarrow> json option) \<Rightarrow> string \<Rightarrow> exn + json" where
  "coding_evaluation json_loads content =
     parse_evaluation json_loads coding_fallback (clean_eval_text content)"

text \<open>
  The fields of the result entry that are read off the evaluation:
  \<^verbatim>\<open>
  "score": evaluation["score"],
  "feedback": evaluation["feedback"],
  "covered_points": evaluation.get("covered_points", []),
  "missing_points": evaluation.get("missing_points", []),
  \<close>
  and for a coding answer \<^verbatim>\<open>score\<close>, \<^verbatim>\<open>correctness\<close>, \<^verbatim>\<open>code_quality\<close>,
  \<^verbatim>\<open>feedback\<close>, \<^verbatim>\<open>suggestions\<close>.
\<close>

record theory_result =
  tr_score :: json
  tr_feedback :: json
  tr_covered_points :: json
  tr_missing_points :: json

definition theory_result_of :: "json \<Rightarrow> exn + theory_result" where
  "theory_result_of evaluation =
     try_bind (py_getitem evaluation ''score'') (\<lambda>sc.
     try_bind (py_getitem evaluation ''feedback'') (\<lambda>fb.
     try_bind (py_get evaluation ''covered_points'' (JArr [])) (\<lambda>cp.
     try_bind (py_get evaluation ''missing_points'' (JArr [])) (\<lambda>mp.
       Inr \<lparr>tr_score = sc, tr_feedback = fb, tr_covered_points = cp,
            tr_missing_points = mp\<rparr>))))"

record coding_result =
  cr_score :: json
  cr_correctness :: json
  cr_code_quality :: json
  cr_feedback :: json
  cr_suggestions :: json

definition coding_result_of :: "json \<Rightarrow> exn + coding_result" where
  "coding_result_of evaluation =
     try_bind (py_getitem evaluation ''score'') (\<lambda>sc.
     try_bind (py_get evaluation ''correctness'' (JStr [])) (\<lambda>co.
     try_bind (py_get evaluation ''code_quality'' (JStr [])) (\<lambda>cq.
     try_bind (py_getitem evaluation ''feedback'') (\<lambda>fb.
     try_bind (py_get evaluation ''suggestions'' (JArr [])) (\<lambda>sg.
       Inr \<lparr>cr_score = sc, cr_correctness = co, cr_code_quality = cq, cr_feedback = fb,
            cr_suggestions = sg\<rparr>)))))"

definition theory_answer_result :: "(string \<Rightarrow> json option) \<Rightarrow> string \<Rightarrow> exn + theory_result" where
  "theory_answer_result json_loads content =
     try_bind (theory_evaluation json_loads content) theory_result_of"

definition coding_answer_result :: "(string \<Rightarrow> json option) \<Rightarrow> string \<Rightarrow> exn + coding_result" where
  "coding_answer_result json_loads content =
     try_bind (coding_evaluation json_loads content) coding_result_of"

section \<open>Reorder questions\<close>

text \<open>
  \<^verbatim>\<open>
  for answer in request.reorder_answers:
      if answer.question_index >= len(test["reorder_questions"]):
          continue
      question = test["reorder_questions"][answer.question_index]
      correct_order = question["correct_order"]
      user_order = answer.ordered_items
      correct_count = sum(1 for i, item in enumerate(user_order)
                          if i < len(correct_order) and item == correct_order[i])
      score = (correct_count / len(correct_order)) * 100
      reorder_results.append({...})
  \<close>
  The quotient is a Python float; the model keeps it as an exact rational, so the rounding
  of floats is left out. Division by zero raises.
\<close>

record reorder_question =
  rq_question :: string
  rq_correct_order :: "string list"
  rq_topic :: "string option"

record reorder_answer =
  ra_question_index :: int
  ra_ordered_items :: "string list"

record reorder_result =
  rr_question_index :: int
  rr_question :: string
  rr_user_order :: "string list"
  rr_correct_order :: "string list"
  rr_score :: rat
  rr_correct_positions :: nat
  rr_total_items :: nat
  rr_topic :: string

definition correct_count :: "string list \<Rightarrow> string list \<Rightarrow> nat" where
  "correct_count correct_order user_order =
     length (filter (\<lambda>(i, item). i < length correct_order \<and> item = correct_order ! i)
               (enumerate 0 user_order))"

definition reorder_score :: "string list \<Rightarrow> string list \<Rightarrow> exn + rat" where
  "reorder_score correct_order user_order =
     (if length correct_order = 0 then Inl (ZeroDivisionError ''division by zero'')
      else Inr (of_nat (correct_count correct_order user_order)
                  / of_nat (length correct_order) * 100))"

text \<open>\<^verbatim>\<open>xs[i]\<close>: a negative index counts from the end; out of range raises.\<close>

definition py_index :: "'a list \<Rightarrow> int \<Rightarrow> exn + 'a" where
  "py_index xs i =
     (let n = int (length xs); j = (if i < 0 then i + n else i)
      in if 0 \<le> j \<and> j < n then Inr (xs ! nat j)
         else Inl (IndexError ''list index out of range''))"

definition reorder_result_of :: "reorder_answer \<Rightarrow> reorder_question \<Rightarrow> exn + reorder_result" where
  "reorder_result_of answer question =
     try_bind (reorder_score (rq_correct_order question) (ra_ordered_items answer)) (\<lambda>score.
       Inr \<lparr>rr_question_index = ra_question_index answer,
            rr_question = rq_question question,
            rr_user_order = ra_ordered_items answer,
            rr_correct_order = rq_correct_order question,
            rr_score = score,
            rr_correct_positions =
              correct_count (rq_correct_order question) (ra_ordered_items answer),
            rr_total_items = length (rq_correct_order question),
            rr_topic = (case rq_topic question of Some t \<Rightarrow> t | None \<Rightarrow> ''General'')\<rparr>)"

fun reorder_results :: "reorder_question list \<Rightarrow> reorder_answer list \<Rightarrow> exn + reorder_result list" where
  "reorder_results questions [] = Inr []"
| "reorder_results questions (answer # answers) =
     (if ra_question_index answer \<ge> int (length questions) then reorder_results questions answers
      else
        try_bind (py_index questions (ra_question_index answer)) (\<lambda>question.
        try_bind (reorder_result_of answer question) (\<lambda>result.
        try_bind (reorder_results questions answers) (\<lambda>rest.
          Inr (result # rest)))))"

section \<open>Stores\<close>

text \<open>
  The document database holds notebooks and documents; the vector index holds one record
  per key. \<open>'oid\<close> is MongoDB's \<^verbatim>\<open>ObjectId\<close>: its parser \<^verbatim>\<open>ObjectId(s)\<close> (which
  raises on a malformed string) and its printer \<^verbatim>\<open>str(oid)\<close> belong to the driver and
  are parameters. A field read with \<^verbatim>\<open>.get\<close> is optional.
\<close>

record 'oid notebook =
  nb_oid :: 'oid
  nb_name :: string
  nb_color :: "string option"
  nb_icon :: "string option"
  nb_created_at :: string
  nb_document_count :: "int option"

record 'oid document =
  doc_oid :: "'oid option"
  doc_id :: "string option"
  doc_notebook_id :: "string option"
  doc_filename :: string
  doc_uploaded_at :: string
  doc_chunks_count :: nat
  doc_chunks :: "string list option"
  doc_file_path :: "string option"

record vector_metadata =
  md_doc_id :: string
  md_notebook_id :: string
  md_filename :: string
  md_chunk_index :: nat
  md_text :: string

record 'e vector_record =
  vr_id :: string
  vr_values :: "'e list"
  vr_metadata :: vector_metadata

type_synonym 'e vector_index = "string \<rightharpoonup> 'e vector_record"

record ('oid, 'e) store =
  notebooks :: "'oid notebook list"
  documents :: "'oid document list"
  vindex :: "'e vector_index"

text \<open>\<^verbatim>\<open>documents_collection.count_documents({"notebook_id": notebook_id})\<close>\<close>

definition count_documents :: "'oid document list \<Rightarrow> string \<Rightarrow> nat" where
  "count_documents docs notebook_id =
     length (filter (\<lambda>d. doc_notebook_id d = Some notebook_id) docs)"

text \<open>\<^verbatim>\<open>notebooks_collection.find_one({"_id": oid})\<close>\<close>

definition find_notebook :: "'oid notebook list \<Rightarrow> 'oid \<Rightarrow> 'oid notebook option" where
  "find_notebook nbs oid = find (\<lambda>nb. nb_oid nb = oid) nbs"

text \<open>\<^verbatim>\<open>update_one\<close> changes the first record that matches the filter.\<close>

fun update_first :: "('a \<Rightarrow> bool) \<Rightarrow> ('a \<Rightarrow> 'a) \<Rightarrow> 'a list \<Rightarrow> 'a list" where
  "update_first P f [] = []"
| "update_first P f (x # xs) = (if P x then f x # xs else x # update_first P f xs)"

text \<open>
  A store with one notebook, whose stored counter says 7, and one document of that notebook.
\<close>

definition example_store :: "(string, nat) store" where
  "example_store =
     \<lparr>notebooks = [\<lparr>nb_oid = ''n1'', nb_name = ''physics'', nb_color = None, nb_icon = None,
        nb_created_at = ''2024-01-01T00:00:00'', nb_document_count = Some 7\<rparr>],
      documents = [\<lparr>doc_oid = Some ''o1'', doc_id = Some ''d1'', doc_notebook_id = Some ''n1'',
        doc_filename = ''a.pdf'', doc_uploaded_at = ''2024-01-02T00:00:00'',
        doc_chunks_count = 0, doc_chunks = None, doc_file_path = None\<rparr>],
      vindex = Map.empty\<rparr>"

text \<open>
  For an example of the driver's parameters: on a string of 24 hexadecimal digits
  \<^verbatim>\<open>ObjectId(s)\<close> succeeds whatever the case of the letters, and \<^verbatim>\<open>str\<close> of the
  result prints the digits in lower case; any other string is rejected here. The id is
  kept as its printed form.
\<close>

definition is_hex :: "char \<Rightarrow> bool" where
  "is_hex c = (c \<in> set ''0123456789abcdefABCDEF'')"

definition lower_hex :: "char \<Rightarrow> char" where
  "lower_hex c =
     (if c = CHR ''A'' then CHR ''a'' else if c = CHR ''B'' then CHR ''b''
      else if c = CHR ''C'' then CHR ''c'' else if c = CHR ''D'' then CHR ''d''
      else if c = CHR ''E'' then CHR ''e'' else if c = CHR ''F'' then CHR ''f'' else c)"

definition hex_ObjectId :: "string \<Rightarrow> exn + string" where
  "hex_ObjectId s =
     (if length s = 24 \<and> list_all is_hex s then Inr (map lower_hex s)
      else Inl (OtherError ''InvalidId''))"

text \<open>
  A store whose notebook has the id \<^verbatim>\<open>65a1b2c3d4e5f60718293a4b\<close> and one document.
\<close>

definition hex_store :: "(string, nat) store" where
  "hex_store =
     \<lparr>notebooks = [\<lparr>nb_oid = ''65a1b2c3d4e5f60718293a4b'', nb_name = ''physics'',
        nb_color = None, nb_icon = None, nb_created_at = ''2024-01-01T00:00:00'',
        nb_document_count = Some 1\<rparr>],
      documents = [\<lparr>doc_oid = Some ''65a1b2c3d4e5f60718293a4c'', doc_id = Some ''d1'',
        doc_notebook_id = Some ''65a1b2c3d4e5f60718293a4b'',
        doc_filename = ''a.pdf'', doc_uploaded_at = ''2024-01-02T00:00:00'',
        doc_chunks_count = 0, doc_chunks = None, doc_file_path = None\<rparr>],
      vindex = Map.empty\<rparr>"

section \<open>Notebook reads\<close>

text \<open>
  \<^verbatim>\<open>
  def notebook_helper(notebook) -> dict:
      return {
          "id": str(notebook["_id"]),
          "name": notebook["name"],
          "color": notebook.get("color", "#2f5bea"),
          "icon": notebook.get("icon", <books emoji>),
          "created_at": notebook["created_at"],
          "document_count": notebook.get("document_count", 0)
      }
  \<close>
  The emoji of the default icon is a code point above 255; its four UTF-8 bytes stand for
  it.
\<close>

record notebook_response =
  nr_id :: string
  nr_name :: string
  nr_color :: string
  nr_icon :: string
  nr_created_at :: string
  nr_document_count :: int

definition notebook_helper :: "('oid \<Rightarrow> string) \<Rightarrow> 'oid notebook \<Rightarrow> notebook_response" where
  "notebook_helper oid_str notebook =
     \<lparr>nr_id = oid_str (nb_oid notebook),
      nr_name = nb_name notebook,
      nr_color = (case nb_color notebook of Some c \<Rightarrow> c | None \<Rightarrow> ''#2f5bea''),
      nr_icon = (case nb_icon notebook of Some i \<Rightarrow> i
                 | None \<Rightarrow> [CHR 0xF0, CHR 0x9F, CHR 0x93, CHR 0x9A]),
      nr_created_at = nb_created_at notebook,
      nr_document_count = (case nb_document_count notebook of Some n \<Rightarrow> n | None \<Rightarrow> 0)\<rparr>"

text \<open>
  \<^verbatim>\<open>
  async def get_notebooks():
      try:
          notebooks = []
          async for notebook in notebooks_collection.find().sort("created_at", -1):
              doc_count = await documents_collection.count_documents(
                  {"notebook_id": str(notebook["_id"])})
              notebook["document_count"] = doc_count
              notebooks.append(notebook_helper(notebook))
          return {"notebooks": notebooks}
      except Exception as e:
          raise HTTPException(status_code=500, detail=str(e))
  \<close>
  The cursor is sorted by \<^verbatim>\<open>created_at\<close>, descending; strings compare
  lexicographically. Nothing in the body raises on a reachable database.
\<close>

definition get_notebooks ::
  "('oid \<Rightarrow> string) \<Rightarrow> ('oid, 'e) store \<Rightarrow> notebook_response list" where
  "get_notebooks oid_str st =
     map (\<lambda>notebook.
            notebook_helper oid_str
              (notebook\<lparr>nb_document_count :=
                 Some (int (count_documents (documents st) (oid_str (nb_oid notebook))))\<rparr>))
         (rev (sort_key nb_created_at (notebooks st)))"

text \<open>
  \<^verbatim>\<open>
  async def get_notebook(notebook_id: str):
      try:
          notebook = await notebooks_collection.find_one({"_id": ObjectId(notebook_id)})
          if not notebook:
              raise HTTPException(status_code=404, detail="Notebook not found")
          doc_count = await documents_collection.count_documents({"notebook_id": notebook_id})
          notebook["document_count"] = doc_count
          return notebook_helper(notebook)
      except Exception as e:
          raise HTTPException(status_code=500, detail=str(e))
  \<close>
\<close>

definition get_notebook_body ::
  "(string \<Rightarrow> exn + 'oid) \<Rightarrow> ('oid \<Rightarrow> string) \<Rightarrow> ('oid, 'e) store \<Rightarrow> string
     \<Rightarrow> exn + notebook_response" where
  "get_notebook_body ObjectId oid_str st notebook_id =
     try_bind (ObjectId notebook_id) (\<lambda>oid.
       case find_notebook (notebooks st) oid of
         None \<Rightarrow> Inl (HTTPException 404 ''Notebook not found'')
       | Some notebook \<Rightarrow>
           Inr (notebook_helper oid_str
                  (notebook\<lparr>nb_document_count :=
                     Some (int (count_documents (documents st) notebook_id))\<rparr>)))"

definition get_notebook ::
  "(string \<Rightarrow> exn + 'oid) \<Rightarrow> ('oid \<Rightarrow> string) \<Rightarrow> ('oid, 'e) store \<Rightarrow> string
     \<Rightarrow> exn + notebook_response" where
  "get_notebook ObjectId oid_str st notebook_id =
     handle_500 (get_notebook_body ObjectId oid_str st notebook_id)"

section \<open>Upload\<close>

text \<open>
  An outcome of a stateful operation: it returns a value, raises, or never returns. The
  store that a raise leaves behind is kept, since nothing is rolled back.
\<close>

datatype ('a, 's) outcome = Returned 'a 's | Raised exn 's | Diverged










text \<open>\<^verbatim>\<open>UPLOADS_DIR / notebook_id / f"{doc_id}.pdf"\<close> with \<^verbatim>\<open>UPLOADS_DIR = Path("uploads")\<close>.\<close>

definition upload_path :: "string \<Rightarrow> string \<Rightarrow> string" where
  "upload_path notebook_id did = ''uploads/'' @ notebook_id @ ''/'' @ did @ ''.pdf''"







section \<open>Chunk cache: \<^verbatim>\<open>ensure_document_chunks\<close>\<close>

text \<open>
  \<^verbatim>\<open>
  pdf_path = doc.get("file_path")
  if not pdf_path:
      notebook_id = doc.get("notebook_id")
      doc_id = doc.get("doc_id")
      if notebook_id and doc_id:
          pdf_path = UPLOADS_DIR / notebook_id / f"{doc_id}.pdf"
  else:
      pdf_path = Path(pdf_path)
  \<close>
  A missing field and an empty string are both false in a condition. \<open>None\<close> is the
  path that stays unset.
\<close>

definition convention_path :: "'oid document \<Rightarrow> string option" where
  "convention_path doc =
     (case (doc_notebook_id doc, doc_id doc) of
        (Some notebook_id, Some did) \<Rightarrow>
          if notebook_id \<noteq> [] \<and> did \<noteq> [] then Some (upload_path notebook_id did) else None
      | _ \<Rightarrow> None)"

definition resolve_pdf_path :: "'oid document \<Rightarrow> string option" where
  "resolve_pdf_path doc =
     (case doc_file_path doc of
        None \<Rightarrow> convention_path doc
      | Some p \<Rightarrow> if p = [] then convention_path doc else Some p)"

text \<open>
  \<^verbatim>\<open>
  async def ensure_document_chunks(doc: dict) -> List[str]:
      chunks = doc.get("chunks") or []
      if chunks:
          return chunks
      ... pdf_path ...
      if not pdf_path or not Path(pdf_path).exists():
          return []
      try:
          with open(pdf_path, "rb") as pdf_file:
              text = extract_text_from_pdf(pdf_file)
      except Exception as e:
          return []
      chunks = chunk_text(text)
      if not chunks:
          return []
      try:
          update_fields = {"chunks": chunks, "chunks_count": len(chunks)}
          doc_id = doc.get("_id")
          if doc_id:
              await documents_collection.update_one({"_id": doc_id}, {"$set": update_fields})
      except Exception as e:
          print(...)
      return chunks
  \<close>
  \<open>exists\<close> is \<^verbatim>\<open>Path.exists\<close>, \<open>read_text\<close> is opening the file and extracting its
  text (either may raise), and \<open>update_ok\<close> tells whether the database accepts the
  update. The state is the document collection.
\<close>

definition set_chunks :: "'oid \<Rightarrow> string list \<Rightarrow> 'oid document list \<Rightarrow> 'oid document list" where
  "set_chunks oid chunks docs =
     update_first (\<lambda>d. doc_oid d = Some oid)
       (\<lambda>d. d\<lparr>doc_chunks := Some chunks, doc_chunks_count := length chunks\<rparr>) docs"

definition ensure_document_chunks ::
  "(string \<Rightarrow> bool) \<Rightarrow> (string \<Rightarrow> exn + string) \<Rightarrow> bool \<Rightarrow> 'oid document
     \<Rightarrow> 'oid document list \<Rightarrow> (string list, 'oid document list) outcome" where
  "ensure_document_chunks exists read_text update_ok doc docs =
     (let chunks = (case doc_chunks doc of None \<Rightarrow> [] | Some cs \<Rightarrow> cs) in
      if chunks \<noteq> [] then Returned chunks docs
      else
        case resolve_pdf_path doc of
          None \<Rightarrow> Returned [] docs
        | Some pdf_path \<Rightarrow>
            if \<not> exists pdf_path then Returned [] docs
            else
              (case read_text pdf_path of
                 Inl e \<Rightarrow> Returned [] docs
               | Inr t \<Rightarrow>
                   (case chunk_text_default t of
                      None \<Rightarrow> Diverged
                    | Some chunks \<Rightarrow>
                        if chunks = [] then Returned [] docs
                        else
                          (case doc_oid doc of
                             None \<Rightarrow> Returned chunks docs
                           | Some oid \<Rightarrow>
                               if update_ok then Returned chunks (set_chunks oid chunks docs)
                               else Returned chunks docs))))"

section \<open>Diverse sampling in \<^verbatim>\<open>generate_quiz\<close>\<close>

text \<open>
  \<^verbatim>\<open>
  all_chunks = []
  num_queries = min(request.num_questions * 2, 10)
  for _ in range(num_queries):
      random_text = f"question {random.randint(1, 10000)}"
      query_embedding = embedding_model.encode(random_text).tolist()
      results = index.query(vector=query_embedding, top_k=3,
                            include_metadata=True, filter=filter_dict)
      for match in results.matches:
          if match.metadata['text'] not in [c['text'] for c in all_chunks]:
              all_chunks.append({'text': match.metadata['text'],
                                 'filename': match.metadata['filename']})
  selected_chunks = all_chunks[:min(len(all_chunks), request.num_questions * 2)]
  \<close>
  The index ranks the records that pass the filter by their similarity to the query
  vector and returns the first \<^verbatim>\<open>top_k\<close> of them. The ranking for the \<open>i\<close>-th random
  query (or the exception that the encoder or the index raised) is the parameter
  \<open>ranking i\<close>. The loop counts the queries it has issued.
\<close>

record match =
  m_text :: string
  m_filename :: string

record sampled_chunk =
  sc_text :: string
  sc_filename :: string

definition index_query :: "exn + match list \<Rightarrow> nat \<Rightarrow> exn + match list" where
  "index_query ranked top_k = (case ranked of Inl e \<Rightarrow> Inl e | Inr ms \<Rightarrow> Inr (take top_k ms))"

definition num_queries :: "int \<Rightarrow> int" where
  "num_queries num_questions = min (num_questions * 2) 10"

definition add_match :: "match \<Rightarrow> sampled_chunk list \<Rightarrow> sampled_chunk list" where
  "add_match m all_chunks =
     (if m_text m \<notin> set (map sc_text all_chunks)
      then all_chunks @ [\<lparr>sc_text = m_text m, sc_filename = m_filename m\<rparr>]
      else all_chunks)"

definition add_matches :: "sampled_chunk list \<Rightarrow> match list \<Rightarrow> sampled_chunk list" where
  "add_matches all_chunks matches = fold add_match matches all_chunks"

fun sample_loop ::
  "(nat \<Rightarrow> exn + match list) \<Rightarrow> nat \<Rightarrow> nat \<Rightarrow> sampled_chunk list
     \<Rightarrow> nat \<times> (exn + sampled_chunk list)" where
  "sample_loop ranking 0 issued all_chunks = (issued, Inr all_chunks)"
| "sample_loop ranking (Suc remaining) issued all_chunks =
     (case index_query (ranking issued) 3 of
        Inl e \<Rightarrow> (Suc issued, Inl e)
      | Inr matches \<Rightarrow>
          sample_loop ranking remaining (Suc issued) (add_matches all_chunks matches))"

definition collect_chunks ::
  "(nat \<Rightarrow> exn + match list) \<Rightarrow> int \<Rightarrow> nat \<times> (exn + sampled_chunk list)" where
  "collect_chunks ranking num_questions =
     sample_loop ranking (nat (num_queries num_questions)) 0 []"

definition select_chunks :: "sampled_chunk list \<Rightarrow> int \<Rightarrow> sampled_chunk list" where
  "select_chunks all_chunks num_questions =
     py_slice all_chunks 0 (min (int (length all_chunks)) (num_questions * 2))"

definition sample_chunks :: "(nat \<Rightarrow> exn + match list) \<Rightarrow> int \<Rightarrow> exn + sampled_chunk list" where
  "sample_chunks ranking num_questions =
     (case snd (collect_chunks ranking num_questions) of
        Inl e \<Rightarrow> Inl e
      | Inr all_chunks \<Rightarrow> Inr (select_chunks all_chunks num_questions))"

text \<open>
  For stating what the sampling returns: the pool of matches, the three best of every
  query in the order of the queries, and the list that keeps the first occurrence of every
  element of a list (\<open>remdups\<close> keeps the last one).
\<close>

definition pooled_matches :: "(nat \<Rightarrow> match list) \<Rightarrow> nat \<Rightarrow> match list" where
  "pooled_matches rs k = concat (map (\<lambda>i. take 3 (rs i)) [0..<k])"

definition first_seen :: "'a list \<Rightarrow> 'a list" where
  "first_seen xs = rev (remdups (rev xs))"

definition chunk_of_match :: "match \<Rightarrow> sampled_chunk" where
  "chunk_of_match m = \<lparr>sc_text = m_text m, sc_filename = m_filename m\<rparr>"

text \<open>A corpus of two chunks: every ranking lists the same records, one of them twice.\<close>

definition two_chunk_ranking :: "nat \<Rightarrow> exn + match list" where
  "two_chunk_ranking i =
     Inr [\<lparr>m_text = ''alpha'', m_filename = ''a.pdf''\<rparr>,
          \<lparr>m_text = ''beta'', m_filename = ''a.pdf''\<rparr>,
          \<lparr>m_text = ''alpha'', m_filename = ''a.pdf''\<rparr>]"

section \<open>Quiz endpoints\<close>

text \<open>
  \<^verbatim>\<open>
  async def generate_quiz(request: QuizGenerateRequest):
      try:
          doc_count = await documents_collection.count_documents(
              {"notebook_id": request.notebook_id})
          if doc_count == 0:
              raise HTTPException(status_code=400,
                  detail="No documents uploaded. Please upload documents first.")
          ... sampling ...
          if not selected_chunks:
              raise HTTPException(status_code=400,
                  detail="Could not retrieve content from documents. ...")
          ... prompt, completion, json.loads, quizzes_store[quiz_id] = ..., response ...
      except json.JSONDecodeError as e:
          raise HTTPException(status_code=500, detail=f"Failed to parse quiz questions: {str(e)}")
      except Exception as e:
          raise HTTPException(status_code=500, detail=str(e))
  \<close>
  What follows the sampling (the prompt, the completion, parsing it, storing the quiz) is
  the parameter \<open>finish\<close>: from the selected chunks and the quiz store to a result and
  the quiz store it leaves. The two handlers are the only ones of this endpoint: there is
  no \<^verbatim>\<open>except HTTPException: raise\<close> in front of them.
\<close>

record quiz_request =
  qr_notebook_id :: string
  qr_document_ids :: "string list option"
  qr_num_questions :: int
  qr_difficulty :: string

definition generate_quiz_handlers :: "exn + 'r \<Rightarrow> exn + 'r" where
  "generate_quiz_handlers r =
     (case r of
        Inr x \<Rightarrow> Inr x
      | Inl (JSONDecodeError m) \<Rightarrow>
          Inl (HTTPException 500 (''Failed to parse quiz questions: '' @ m))
      | Inl e \<Rightarrow> Inl (HTTPException 500 (str_exn e)))"

definition generate_quiz_body ::
  "(nat \<Rightarrow> exn + match list) \<Rightarrow> (sampled_chunk list \<Rightarrow> 'q \<Rightarrow> (exn + 'r) \<times> 'q)
     \<Rightarrow> 'oid document list \<Rightarrow> quiz_request \<Rightarrow> 'q \<Rightarrow> (exn + 'r) \<times> 'q" where
  "generate_quiz_body ranking finish docs request quizzes_store =
     (if count_documents docs (qr_notebook_id request) = 0
      then (Inl (HTTPException 400 ''No documents uploaded. Please upload documents first.''),
            quizzes_store)
      else
        case sample_chunks ranking (qr_num_questions request) of
          Inl e \<Rightarrow> (Inl e, quizzes_store)
        | Inr selected_chunks \<Rightarrow>
            if selected_chunks = []
            then (Inl (HTTPException 400
                    (''Could not retrieve content from documents. ''
                       @ ''Please ensure documents are properly uploaded.'')),
                  quizzes_store)
            else finish selected_chunks quizzes_store)"

definition generate_quiz ::
  "(nat \<Rightarrow> exn + match list) \<Rightarrow> (sampled_chunk list \<Rightarrow> 'q \<Rightarrow> (exn + 'r) \<times> 'q)
     \<Rightarrow> 'oid document list \<Rightarrow> quiz_request \<Rightarrow> 'q \<Rightarrow> (exn + 'r) \<times> 'q" where
  "generate_quiz ranking finish docs request quizzes_store =
     (let (r, quizzes_store') = generate_quiz_body ranking finish docs request quizzes_store
      in (generate_quiz_handlers r, quizzes_store'))"

text \<open>
  \<^verbatim>\<open>
  async def submit_quiz(request: QuizSubmitRequest):
      try:
          if request.quiz_id not in quizzes_store:
              raise HTTPException(status_code=404, detail="Quiz not found")
          quiz = quizzes_store[request.quiz_id]
          ... scoring, analysis ...
      except Exception as e:
          raise HTTPException(status_code=500, detail=str(e))
  \<close>
  The quiz store is a dictionary from quiz ids; scoring a quiz that was found is the
  parameter \<open>score\<close>.
\<close>

definition submit_quiz_body ::
  "('quiz \<Rightarrow> 'a \<Rightarrow> exn + 'r) \<Rightarrow> (string \<rightharpoonup> 'quiz) \<Rightarrow> string \<Rightarrow> 'a \<Rightarrow> exn + 'r" where
  "submit_quiz_body score quizzes_store quiz_id answers =
     (case quizzes_store quiz_id of
        None \<Rightarrow> Inl (HTTPException 404 ''Quiz not found'')
      | Some quiz \<Rightarrow> score quiz answers)"

definition submit_quiz ::
  "('quiz \<Rightarrow> 'a \<Rightarrow> exn + 'r) \<Rightarrow> (string \<rightharpoonup> 'quiz) \<Rightarrow> string \<Rightarrow> 'a \<Rightarrow> exn + 'r" where
  "submit_quiz score quizzes_store quiz_id answers =
     handle_500 (submit_quiz_body score quizzes_store quiz_id answers)"

text \<open>
  The sibling endpoint \<^verbatim>\<open>submit_mock_test\<close> looks its test up the same way, and its
  handlers let an \<^verbatim>\<open>HTTPException\<close> through:
  \<^verbatim>\<open>
  if request.test_id not in mock_tests_store:
      raise HTTPException(status_code=404, detail="Test not found")
  ...
  except json.JSONDecodeError as e:
      raise HTTPException(status_code=500, detail=f"Failed to parse test data: {str(e)}")
  except HTTPException:
      raise
  except Exception as e:
      raise HTTPException(status_code=500, detail=f"Error evaluating test: {str(e)}")
  \<close>
\<close>

definition submit_mock_test_handlers :: "exn + 'r \<Rightarrow> exn + 'r" where
  "submit_mock_test_handlers r =
     (case r of
        Inr x \<Rightarrow> Inr x
      | Inl (JSONDecodeError m) \<Rightarrow> Inl (HTTPException 500 (''Failed to parse test data: '' @ m))
      | Inl (HTTPException code detail) \<Rightarrow> Inl (HTTPException code detail)
      | Inl e \<Rightarrow> Inl (HTTPException 500 (''Error evaluating test: '' @ str_exn e)))"

definition submit_mock_test_lookup ::
  "('test \<Rightarrow> 'a \<Rightarrow> exn + 'r) \<Rightarrow> (string \<rightharpoonup> 'test) \<Rightarrow> string \<Rightarrow> 'a \<Rightarrow> exn + 'r" where
  "submit_mock_test_lookup evaluate mock_tests_store test_id answers =
     submit_mock_test_handlers
       (case mock_tests_store test_id of
          None \<Rightarrow> Inl (HTTPException 404 ''Test not found'')
        | Some test \<Rightarrow> evaluate test answers)"

section \<open>Verification of the chunker\<close>

subsection \<open>When the loop returns\<close>

text \<open>
  A run that returns never had a stride of zero or less with text still ahead of it: the
  window start would stay below the length for ever.
\<close>

lemma chunk_loop_Some_advances:
  assumes "chunk_loop t sz ov st acc = Some y"
  shows "\<not> (sz \<le> ov \<and> st < int (length t))"
proof (rule chunk_loop.raw_induct
    [where P = "\<lambda>t sz ov st acc y. \<not> (sz \<le> ov \<and> st < int (length t))", OF _ assms])
  fix f :: "string \<Rightarrow> int \<Rightarrow> int \<Rightarrow> int \<Rightarrow> string list \<Rightarrow> string list option"
  fix t sz ov st acc y
  assume IH: "\<And>t sz ov st acc y. f t sz ov st acc = Some y
      \<Longrightarrow> \<not> (sz \<le> ov \<and> st < int (length t))"
  assume step: "(if st < int (length t)
      then f t sz ov (st + (sz - ov)) (acc @ [py_slice t st (st + sz)])
      else Some acc) = Some y"
  show "\<not> (sz \<le> ov \<and> st < int (length t))"
  proof
    assume a: "sz \<le> ov \<and> st < int (length t)"
    with step have "f t sz ov (st + (sz - ov)) (acc @ [py_slice t st (st + sz)]) = Some y"
      by simp
    from IH [OF this] a show False by simp
  qed
qed

lemma chunk_loop_diverges:
  assumes "chunk_size \<le> overlap" "start < int (length t)"
  shows "chunk_loop t chunk_size overlap start chunks = None"
proof (cases "chunk_loop t chunk_size overlap start chunks")
  case None
  then show ?thesis .
next
  case (Some y)
  from chunk_loop_Some_advances [OF this] assms show ?thesis by simp
qed

text \<open>With a positive stride the distance to the end of the text shrinks at every step.\<close>

lemma chunk_loop_returns:
  assumes "overlap < chunk_size"
  shows "\<exists>y. chunk_loop text chunk_size overlap start chunks = Some y"
proof (induction "nat (int (length text) - start)" arbitrary: start chunks rule: less_induct)
  case less
  show ?case
  proof (cases "start < int (length text)")
    case True
    with assms have "nat (int (length text) - (start + (chunk_size - overlap)))
        < nat (int (length text) - start)"
      by linarith
    from less [OF this] show ?thesis
      using True by (subst chunk_loop.simps) simp
  next
    case False
    then show ?thesis by (subst chunk_loop.simps) simp
  qed
qed

lemma chunk_text_default_returns: "\<exists>chunks. chunk_text_default t = Some chunks"
  using chunk_loop_returns [of 200 1000 t 0 "[]"]
  by (simp add: chunk_text_default_def chunk_text_def)

text \<open>
  Claim C1, as the code has it. \<^verbatim>\<open>chunk_text\<close> does not check its configuration.
  With \<open>overlap \<ge> chunk_size\<close> nothing is rejected: on the empty text the call returns
  the empty list, and on every other text it never returns. The call returns exactly when
  the text is empty or \<open>overlap < chunk_size\<close>.
\<close>

theorem chunk_text_returns_iff:
  "(chunk_text t chunk_size overlap = None) = (t \<noteq> [] \<and> chunk_size \<le> overlap)
   \<and> (t = [] \<longrightarrow> chunk_text t chunk_size overlap = Some [])"
proof -
  have empty: "chunk_text [] chunk_size overlap = Some []"
    by (simp add: chunk_text_def chunk_loop.simps)
  have "chunk_text t chunk_size overlap = None" if "t \<noteq> []" "chunk_size \<le> overlap"
    using that chunk_loop_diverges [of chunk_size overlap 0 t "[]"]
    by (simp add: chunk_text_def)
  moreover have "chunk_text t chunk_size overlap \<noteq> None" if "overlap < chunk_size"
    using chunk_loop_returns [OF that, of t 0 "[]"] by (auto simp: chunk_text_def)
  moreover have "chunk_text t chunk_size overlap \<noteq> None" if "t = []"
    using that empty by simp
  ultimately show ?thesis
    using empty by (cases "t = []"; cases "overlap < chunk_size") auto
qed

theorem chunk_text_returns_iff_witness:
  "chunk_text [] 5 5 = Some [] \<and> chunk_text ''abc'' 1 1 = None \<and> chunk_text ''abc'' 2 1 \<noteq> None"
  using chunk_text_returns_iff [of "[]" 5 5] chunk_text_returns_iff [of "''abc''" 1 1]
    chunk_text_returns_iff [of "''abc''" 2 1]
  by simp

text \<open>
  Claim C1, as stated, fails: with \<open>overlap = chunk_size = 1\<close> the one-character text
  makes the loop run for ever, and the empty text is answered with the empty list; neither
  call is rejected.
\<close>

theorem chunk_text_overlap_not_rejected:
  "chunk_text ''a'' 1 1 = None \<and> chunk_text [] 1 1 = Some []"
proof
  show "chunk_text ''a'' 1 1 = None"
    using chunk_loop_diverges [of 1 1 0 "''a''" "[]"] by (simp add: chunk_text_def)
  show "chunk_text [] 1 1 = Some []"
    by (simp add: chunk_text_def chunk_loop.simps)
qed

subsection \<open>The windows\<close>

lemma py_slice_window:
  "py_slice xs (int s) (int s + int w) = take w (drop s xs)"
  by (simp add: py_slice_def Let_def min_def) 

lemma chunk_loop_windows:
  assumes d: "0 < d"
  shows "chunk_loop t (int w) (int w - int d) (int s) acc =
    Some (acc @ map (\<lambda>k. take w (drop (s + k * d) t)) [0..<(length t - s + d - 1) div d])"
proof (induction "length t - s" arbitrary: s acc rule: less_induct)
  case less
  show ?case
  proof (cases "s < length t")
    case False
    then have "(length t - s + d - 1) div d = 0" using d by simp
    with False show ?thesis by (subst chunk_loop.simps) simp
  next
    case True
    with d have m: "length t - (s + d) < length t - s" by linarith
    have cnt: "(length t - s + d - 1) div d = Suc ((length t - (s + d) + d - 1) div d)"
    proof (cases "s + d \<le> length t")
      case True
      then have "length t - s + d - 1 = (length t - (s + d) + d - 1) + d" using d by linarith
      then have "(length t - s + d - 1) div d = ((length t - (s + d) + d - 1) + d) div d"
        by (rule arg_cong)
      also have "\<dots> = Suc ((length t - (s + d) + d - 1) div d)"
        using d by (simp only: div_add_self2)
      finally show ?thesis .
    next
      case False
      with True d have "d \<le> length t - s + d - 1" "length t - s + d - 1 < 2 * d" by linarith+
      then have "(length t - s + d - 1) div d = 1"
        by (metis One_nat_def div_nat_eqI mult.commute mult_2 nat_mult_1_right mult_Suc_right)
      moreover from False have "(length t - (s + d) + d - 1) div d = 0" using d by simp
      ultimately show ?thesis by simp
    qed
    have step: "int s + (int w - (int w - int d)) = int (s + d)" by simp
    have "chunk_loop t (int w) (int w - int d) (int s) acc =
        chunk_loop t (int w) (int w - int d) (int (s + d)) (acc @ [take w (drop s t)])"
      using True by (subst chunk_loop.simps) (simp only: step py_slice_window, simp)
    also have "\<dots> = Some ((acc @ [take w (drop s t)]) @
        map (\<lambda>k. take w (drop ((s + d) + k * d) t)) [0..<(length t - (s + d) + d - 1) div d])"
      by (rule less [OF m])
    also have "(acc @ [take w (drop s t)]) @
        map (\<lambda>k. take w (drop ((s + d) + k * d) t)) [0..<(length t - (s + d) + d - 1) div d]
      = acc @ map (\<lambda>k. take w (drop (s + k * d) t)) [0..<(length t - s + d - 1) div d]"
      unfolding cnt by (simp add: upt_conv_Cons map_Suc_upt [symmetric] del: upt_Suc add: ac_simps)
    finally show ?thesis .
  qed
qed


lemma ceil_div_bounds:
  fixes n d :: nat
  assumes "0 < d"
  shows "n \<le> ((n + d - 1) div d) * d"
    and "0 < n \<Longrightarrow> ((n + d - 1) div d - 1) * d < n"
    and "0 < n \<Longrightarrow> 0 < (n + d - 1) div d"
proof -
  let ?c = "(n + d - 1) div d"
  have eq: "?c * d + (n + d - 1) mod d = n + d - 1" by simp
  have lt: "(n + d - 1) mod d < d" using assms by simp
  from eq lt show "n \<le> ?c * d" by linarith
  show pos: "0 < ?c" if "0 < n"
  proof -
    from that assms have "d \<le> n + d - 1" by linarith
    then show ?thesis using assms by (simp add: div_greater_zero_iff)
  qed
  show "(?c - 1) * d < n" if "0 < n"
  proof -
    from pos [OF that] have "(?c - 1) * d + d = ?c * d"
      by (cases ?c) simp_all
    with eq that assms show ?thesis by linarith
  qed
qed

lemma concat_drop_windows:
  assumes "d \<le> w"
  shows "concat (map (\<lambda>k. drop (w - d) (take w (drop (s + k * d) t))) [0..<m])
    = take (m * d) (drop (s + (w - d)) t)"
proof (induction m)
  case 0
  show ?case by simp
next
  case (Suc m)
  let ?X = "drop (s + (w - d)) t"
  have "drop (w - d) (take w (drop (s + m * d) t)) = take d (drop (m * d) ?X)"
    using assms by (simp add: drop_take ac_simps)
  moreover have "take (m * d + d) ?X = take (m * d) ?X @ take d (drop (m * d) ?X)"
    by (rule take_add)
  moreover have "Suc m * d = m * d + d" by simp
  ultimately show ?case
    using Suc by (simp del: drop_drop mult_Suc)
qed

lemma reconstruct_windows:
  assumes "0 < d" "d \<le> w"
  shows "reconstruct (w - d) (map (\<lambda>k. take w (drop (k * d) t)) [0..<(length t + d - 1) div d]) = t"
proof (cases "t = []")
  case True
  then show ?thesis using assms by (simp add: reconstruct_def)
next
  case False
  let ?c = "(length t + d - 1) div d"
  from False have n: "0 < length t" by simp
  from ceil_div_bounds(3) [OF assms(1) n] obtain c' where c': "?c = Suc c'"
    by (cases ?c) simp_all
  from ceil_div_bounds(1) [OF assms(1), of "length t"] c'
  have cover: "length t \<le> c' * d + d" by simp
  have "map (\<lambda>k. take w (drop (k * d) t)) [0..<Suc c']
      = take w t # map (\<lambda>k. take w (drop (d + k * d) t)) [0..<c']"
    by (simp add: upt_conv_Cons map_Suc_upt [symmetric] del: upt_Suc)
  then have "reconstruct (w - d) (map (\<lambda>k. take w (drop (k * d) t)) [0..<Suc c'])
      = take w t @ concat (map (\<lambda>k. drop (w - d) (take w (drop (d + k * d) t))) [0..<c'])"
    by (simp add: reconstruct_def comp_def)
  also have "\<dots> = take w t @ take (c' * d) (drop (d + (w - d)) t)"
    by (simp only: concat_drop_windows [OF assms(2)])
  also have "\<dots> = take w t @ take (c' * d) (drop w t)"
    using assms by simp
  also have "\<dots> = take w t @ drop w t"
    using cover assms by simp
  finally have "reconstruct (w - d) (map (\<lambda>k. take w (drop (k * d) t)) [0..<Suc c']) = t"
    by simp
  then show ?thesis unfolding c' .
qed

lemma last_window_length:
  assumes "0 < d" "d \<le> w" "t \<noteq> []"
  shows "length (take w (drop (((length t + d - 1) div d - 1) * d) t))
      = length t - ((length t + d - 1) div d - 1) * d"
    and "0 < length (take w (drop (((length t + d - 1) div d - 1) * d) t))"
proof -
  let ?c = "(length t + d - 1) div d"
  from assms have n: "0 < length t" by simp
  note b = ceil_div_bounds [OF assms(1), of "length t"]
  from b(3) [OF n] have "(?c - 1) * d + d = ?c * d" by (cases ?c) simp_all
  with b(1) assms(2) have "length t - (?c - 1) * d \<le> w" by linarith
  then show "length (take w (drop ((?c - 1) * d) t)) = length t - (?c - 1) * d"
    by simp
  with b(2) [OF n] assms show "0 < length (take w (drop ((?c - 1) * d) t))"
    by simp
qed

text \<open>
  Claim C5, as the code has it. For \<open>0 \<le> overlap < chunk_size\<close> the call returns
  one window for every multiple of the stride below the length of the text; window \<open>k\<close>
  is the text from \<open>k * stride\<close>, cut at \<open>chunk_size\<close> characters. Concatenating the
  first window with the later ones, each without its first \<open>overlap\<close> characters, gives
  the text back. A window that ends inside the text has \<open>chunk_size\<close> characters. The
  last window has \<open>length t - k * stride\<close> characters for \<open>k\<close> the number of windows
  before it, and is not empty.
\<close>

theorem chunk_text_windows:
  assumes "0 \<le> overlap" "overlap < chunk_size"
  shows "\<exists>cs. chunk_text t chunk_size overlap = Some cs
    \<and> length cs = (length t + nat (chunk_size - overlap) - 1) div nat (chunk_size - overlap)
    \<and> (\<forall>k < length cs. cs ! k = take (nat chunk_size) (drop (k * nat (chunk_size - overlap)) t))
    \<and> reconstruct (nat overlap) cs = t
    \<and> (\<forall>k < length cs. k * nat (chunk_size - overlap) + nat chunk_size \<le> length t
          \<longrightarrow> length (cs ! k) = nat chunk_size)
    \<and> (cs \<noteq> [] \<longrightarrow>
          length (last cs) = length t - (length cs - 1) * nat (chunk_size - overlap)
          \<and> 0 < length (last cs))"
proof -
  define w where "w = nat chunk_size"
  define d where "d = nat (chunk_size - overlap)"
  define c where "c = (length t + d - 1) div d"
  define cs where "cs = map (\<lambda>k. take w (drop (k * d) t)) [0..<c]"
  from assms have d: "0 < d" "d \<le> w" and sz: "chunk_size = int w"
    and ov: "overlap = int w - int d" "nat overlap = w - d"
    by (simp_all add: w_def d_def)
  have run: "chunk_text t chunk_size overlap = Some cs"
    using chunk_loop_windows [OF d(1), of t w 0 "[]"]
    by (simp add: chunk_text_def sz ov cs_def c_def)
  have len: "length cs = c" by (simp add: cs_def)
  have nth: "cs ! k = take w (drop (k * d) t)" if "k < length cs" for k
    using that by (simp add: cs_def)
  have rec: "reconstruct (nat overlap) cs = t"
    unfolding ov(2) cs_def c_def by (rule reconstruct_windows [OF d])
  have full: "length (cs ! k) = w" if "k < length cs" "k * d + w \<le> length t" for k
    using that by (simp add: nth)
  have lastc: "length (last cs) = length t - (length cs - 1) * d \<and> 0 < length (last cs)"
    if ne: "cs \<noteq> []"
  proof -
    from ne have cpos: "0 < c" by (simp add: cs_def)
    have tne: "t \<noteq> []"
    proof
      assume "t = []"
      then have "c = 0" using d by (simp add: c_def)
      with cpos show False by simp
    qed
    from ne have "last cs = cs ! (c - 1)" by (simp add: last_conv_nth len)
    also have "\<dots> = take w (drop ((c - 1) * d) t)" using cpos by (simp add: nth len)
    finally have "last cs = take w (drop ((c - 1) * d) t)" .
    with last_window_length [OF d tne] show ?thesis by (simp add: len c_def)
  qed
  show ?thesis
    unfolding w_def [symmetric] d_def [symmetric]
    using run len nth rec full lastc c_def by blast
qed

theorem chunk_text_windows_witness:
  "(0::int) \<le> 2 \<and> (2::int) < 4
   \<and> (\<exists>cs. chunk_text ''abcde'' 4 2 = Some cs \<and> length cs = 3
          \<and> reconstruct 2 cs = ''abcde'' \<and> length (last cs) = 1)"
proof -
  have h: "(0::int) \<le> 2" "(2::int) < 4" by simp_all
  from chunk_text_windows [OF h, of "''abcde''"] obtain cs where
    run: "chunk_text ''abcde'' 4 2 = Some cs"
    and len: "length cs = (length ''abcde'' + nat (4 - 2) - 1) div nat (4 - 2)"
    and rec: "reconstruct (nat 2) cs = ''abcde''"
    and lst: "cs \<noteq> [] \<longrightarrow>
      length (last cs) = length ''abcde'' - (length cs - 1) * nat (4 - 2) \<and> 0 < length (last cs)"
    by blast
  from len have len3: "length cs = 3" by simp
  then have "cs \<noteq> []" by auto
  with lst len3 have "length (last cs) = 1" by simp
  with run len3 rec show ?thesis by auto
qed

text \<open>
  Claim C5, as stated, fails in two ways. With \<open>chunk_size = 4\<close> and \<open>overlap = 2\<close>
  the text \<^verbatim>\<open>abcde\<close> gives three chunks, and the second, which is not the last, has
  three characters. With the negative overlap \<open>-1 < chunk_size = 2\<close> the stride is
  longer than the window, and the text \<^verbatim>\<open>abc\<close> loses its last character.
\<close>

theorem chunk_text_inner_chunk_short:
  "chunk_text ''abcde'' 4 2 = Some [''abcd'', ''cde'', ''e'']
   \<and> length ([''abcd'', ''cde'', ''e''] ! 1) \<noteq> 4
   \<and> chunk_text ''abc'' 2 (- 1) = Some [''ab'']"
  by (simp add: chunk_text_def chunk_loop.simps py_slice_def)

section \<open>Verification of the structured-output handling\<close>

subsection \<open>Where the JSON text is found\<close>

text \<open>
  A match of \<open>search_object\<close> begins at the first opening brace of the text and ends at
  its last closing brace.
\<close>

lemma search_object_Some:
  assumes "search_object s = Some m"
  shows "\<exists>pre post. s = pre @ m @ post \<and> CHR ''{'' \<notin> set pre \<and> CHR ''}'' \<notin> set post
      \<and> hd m = CHR ''{'' \<and> last m = CHR ''}''"
proof -
  let ?open = "\<lambda>c. c \<noteq> CHR ''{''" and ?close = "\<lambda>c. c \<noteq> CHR ''}''"
  from assms obtain b t where bt: "dropWhile ?open s = b # t"
    by (auto simp: search_object_def split: list.splits)
  define r where "r = dropWhile ?close (rev t)"
  have found: "(case r of [] \<Rightarrow> None | x # xs \<Rightarrow> Some (b # rev (x # xs))) = Some m"
    using assms unfolding search_object_def bt list.case r_def [symmetric] .
  then have r: "r \<noteq> []" and m: "m = b # rev r"
    by (cases r; simp)+
  have b: "b = CHR ''{''"
    using hd_dropWhile [of ?open s] bt by auto
  have hr: "hd r = CHR ''}''"
    using hd_dropWhile [of ?close "rev t"] r unfolding r_def by blast
  let ?pre = "takeWhile ?open s" and ?post = "rev (takeWhile ?close (rev t))"
  have "rev t = takeWhile ?close (rev t) @ r" by (simp add: r_def)
  then have "rev (rev t) = rev (takeWhile ?close (rev t) @ r)" by (rule arg_cong)
  then have t: "t = rev r @ ?post" by (simp only: rev_rev_ident rev_append)
  have "s = ?pre @ dropWhile ?open s" by simp
  with bt t m have s: "s = ?pre @ m @ ?post" by simp
  have pre: "CHR ''{'' \<notin> set ?pre"
    using set_takeWhileD [of "CHR ''{''" ?open s] by auto
  have post: "CHR ''}'' \<notin> set ?post"
    using set_takeWhileD [of "CHR ''}''" ?close "rev t"] by auto
  have "last m = last (rev r)" using m r by simp
  also have "\<dots> = hd r" using r by (simp add: last_rev)
  finally have lm: "last m = CHR ''}''" using hr by simp
  from s pre post b m lm show ?thesis by (intro exI [of _ ?pre] exI [of _ ?post]) simp
qed

text \<open>
  Conversely, whenever a closing brace follows the first opening brace there is a match,
  whatever the characters in between, line feeds included.
\<close>

lemma search_object_found:
  assumes "CHR ''{'' \<notin> set pre" and "CHR ''}'' \<notin> set post"
  shows "search_object (pre @ CHR ''{'' # mid @ CHR ''}'' # post) = Some (CHR ''{'' # mid @ [CHR ''}''])"
proof -
  let ?open = "\<lambda>c. c \<noteq> CHR ''{''" and ?close = "\<lambda>c. c \<noteq> CHR ''}''"
  have "dropWhile ?open (pre @ CHR ''{'' # mid @ CHR ''}'' # post)
      = dropWhile ?open (CHR ''{'' # mid @ CHR ''}'' # post)"
    using assms(1) by (intro dropWhile_append2) auto
  then have 1: "dropWhile ?open (pre @ CHR ''{'' # mid @ CHR ''}'' # post)
      = CHR ''{'' # (mid @ CHR ''}'' # post)"
    by simp
  have "dropWhile ?close (rev post @ CHR ''}'' # rev mid) = dropWhile ?close (CHR ''}'' # rev mid)"
    using assms(2) by (intro dropWhile_append2) auto
  then have 2: "dropWhile ?close (rev (mid @ CHR ''}'' # post)) = CHR ''}'' # rev mid"
    by simp
  show ?thesis
    unfolding search_object_def 1 list.case 2 by simp
qed

lemma search_object_None:
  "search_object s = None \<longleftrightarrow> CHR ''}'' \<notin> set (dropWhile (\<lambda>c. c \<noteq> CHR ''{'') s)"
proof (cases "dropWhile (\<lambda>c. c \<noteq> CHR ''{'') s")
  case Nil
  show ?thesis unfolding search_object_def Nil by simp
next
  case (Cons b t)
  have b: "b = CHR ''{''"
    using hd_dropWhile [of "\<lambda>c. c \<noteq> CHR ''{''" s] Cons by auto
  define r where "r = dropWhile (\<lambda>c. c \<noteq> CHR ''}'') (rev t)"
  have r: "r = [] \<longleftrightarrow> CHR ''}'' \<notin> set t"
    unfolding r_def by (auto simp: dropWhile_eq_Nil_conv)
  have "search_object s = (case r of [] \<Rightarrow> None | x # xs \<Rightarrow> Some (b # rev (x # xs)))"
    unfolding search_object_def Cons list.case r_def ..
  then have "search_object s = None \<longleftrightarrow> r = []"
    by (cases r) simp_all
  with r b show ?thesis unfolding Cons by simp
qed

lemma search_object_iff:
  "search_object s = Some m \<longleftrightarrow>
     (\<exists>pre mid post. s = pre @ m @ post \<and> m = CHR ''{'' # mid @ [CHR ''}'']
        \<and> CHR ''{'' \<notin> set pre \<and> CHR ''}'' \<notin> set post)"
proof
  assume "search_object s = Some m"
  from search_object_Some [OF this] obtain pre post where
    s: "s = pre @ m @ post" and pre: "CHR ''{'' \<notin> set pre" and post: "CHR ''}'' \<notin> set post"
    and h: "hd m = CHR ''{''" and l: "last m = CHR ''}''"
    by blast
  from \<open>search_object s = Some m\<close> have "length m \<ge> 2"
    by (auto simp: search_object_def split: list.splits)
  then obtain a m' where m: "m = a # m'" and "m' \<noteq> []" by (cases m; cases "tl m") auto
  then obtain mid z where m': "m' = mid @ [z]" by (metis rev_exhaust)
  from h l m m' have "m = CHR ''{'' # mid @ [CHR ''}'']" by simp
  with s pre post show "\<exists>pre mid post. s = pre @ m @ post \<and> m = CHR ''{'' # mid @ [CHR ''}'']
        \<and> CHR ''{'' \<notin> set pre \<and> CHR ''}'' \<notin> set post"
    by blast
next
  assume "\<exists>pre mid post. s = pre @ m @ post \<and> m = CHR ''{'' # mid @ [CHR ''}'']
        \<and> CHR ''{'' \<notin> set pre \<and> CHR ''}'' \<notin> set post"
  then obtain pre mid post where s: "s = pre @ m @ post" and m: "m = CHR ''{'' # mid @ [CHR ''}'']"
    and pre: "CHR ''{'' \<notin> set pre" and post: "CHR ''}'' \<notin> set post"
    by blast
  from s m have "s = pre @ CHR ''{'' # mid @ CHR ''}'' # post" by simp
  with search_object_found [OF pre post, of mid] m show "search_object s = Some m" by simp
qed

lemma clean_example: "clean_eval_text example_response = example_object"
  by (simp add: clean_eval_text_def example_response_def example_object_def dq_def strip_def
      lstrip_def rstrip_def is_space_def sub_leading_def sub_trailing_fence_def starts_with_def
      search_object_def)

lemma search_example: "search_object example_response = Some example_object"
  by (simp add: example_response_def example_object_def dq_def search_object_def)

lemma search_remark: "search_object example_with_remark = Some example_with_remark"
  by (simp add: example_with_remark_def example_object_def dq_def search_object_def)

text \<open>
  Claim C2, as the code has it. The JSON text is found by the regular expression
  \<^verbatim>\<open>\{[\s\S]*\}\<close>: there is a match exactly when a \<^verbatim>\<open>}\<close> follows the first
  \<^verbatim>\<open>{\<close> of the text, and the match is the part of the text from its first \<^verbatim>\<open>{\<close>
  to its last \<^verbatim>\<open>}\<close>, whatever lies between. Interview scoring parses that match. On
  the specification's example response the text that is handed to the parser is exactly
  \<^verbatim>\<open>{"score": 80, "feedback": "ok"}\<close>, in the evaluation of a theory answer, of a coding
  answer and in interview scoring.
\<close>

theorem extraction_first_to_last_brace:
  "(search_object s = Some m \<longleftrightarrow>
      (\<exists>pre mid post. s = pre @ m @ post \<and> m = CHR ''{'' # mid @ [CHR ''}'']
         \<and> CHR ''{'' \<notin> set pre \<and> CHR ''}'' \<notin> set post))
   \<and> (search_object s = None \<longleftrightarrow> CHR ''}'' \<notin> set (dropWhile (\<lambda>c. c \<noteq> CHR ''{'') s))
   \<and> (search_object t = Some m' \<and> json_loads m' = Some v' \<longrightarrow>
        interview_scoring_data json_loads t = Inr v')
   \<and> clean_eval_text example_response = example_object
   \<and> search_object example_response = Some example_object
   \<and> theory_evaluation json_loads example_response
       = parse_evaluation json_loads theory_fallback example_object
   \<and> coding_evaluation json_loads example_response
       = parse_evaluation json_loads coding_fallback example_object
   \<and> (json_loads example_object = Some v \<longrightarrow>
        interview_scoring_data json_loads example_response = Inr v)"
proof -
  have a: "search_object t = Some m' \<and> json_loads m' = Some v' \<longrightarrow>
        interview_scoring_data json_loads t = Inr v'"
    by (simp add: interview_scoring_data_def)
  have b: "theory_evaluation json_loads example_response
       = parse_evaluation json_loads theory_fallback example_object"
    by (simp add: theory_evaluation_def clean_example)
  have c: "coding_evaluation json_loads example_response
       = parse_evaluation json_loads coding_fallback example_object"
    by (simp add: coding_evaluation_def clean_example)
  have d: "json_loads example_object = Some v \<longrightarrow>
        interview_scoring_data json_loads example_response = Inr v"
    by (simp add: interview_scoring_data_def search_example)
  from search_object_iff [of s m] search_object_None [of s] a clean_example search_example b c d
  show ?thesis by blast
qed

theorem extraction_first_to_last_brace_witness:
  "(\<exists>pre mid post. example_with_remark = pre @ example_with_remark @ post
       \<and> example_with_remark = CHR ''{'' # mid @ [CHR ''}'']
       \<and> CHR ''{'' \<notin> set pre \<and> CHR ''}'' \<notin> set post)
   \<and> interview_scoring_data (\<lambda>s. Some JNull) example_with_remark = Inr JNull
   \<and> interview_scoring_data (\<lambda>s. Some JNull) example_response = Inr JNull"
proof -
  note t = extraction_first_to_last_brace
    [where s = example_with_remark and m = example_with_remark and t = example_with_remark
      and m' = example_with_remark and json_loads = "\<lambda>s. Some JNull" and v' = JNull
      and v = JNull]
  from t search_remark show ?thesis by simp
qed

text \<open>
  Claim C2, as stated, fails: when a remark with braces follows the object, the code takes
  everything up to the last closing brace, while scanning for the first balanced object
  stops at the end of the object.
\<close>

theorem search_object_not_balanced:
  "search_object example_with_remark = Some example_with_remark
   \<and> clean_eval_text example_with_remark = example_with_remark
   \<and> spec_first_balanced_object example_with_remark = Some example_object
   \<and> example_with_remark \<noteq> example_object"
  by (simp add: example_with_remark_def example_object_def dq_def search_object_def
      spec_first_balanced_object_def clean_eval_text_def strip_def
      lstrip_def rstrip_def is_space_def sub_leading_def sub_trailing_fence_def starts_with_def)

subsection \<open>Required fields\<close>

lemma parse_evaluation_missing:
  assumes "json_loads eval_text = Some (JObj kvs)"
    and "''score'' \<notin> fst ` set kvs \<or> ''feedback'' \<notin> fst ` set kvs"
  shows "parse_evaluation json_loads fallback eval_text = Inr fallback"
  using assms by (auto simp: parse_evaluation_def try_bind_def)

text \<open>
  Claim C3, evaluated on the code. When the text that reaches the parser parses to an
  object that lacks \<^verbatim>\<open>score\<close> or \<^verbatim>\<open>feedback\<close>, the evaluation is the whole fallback
  of the call site, with score 50, and that is the score of the result entry. When it
  parses to a number, a boolean or \<^verbatim>\<open>null\<close>, the membership test itself raises a
  \<^verbatim>\<open>TypeError\<close>, which the handler for \<^verbatim>\<open>JSONDecodeError\<close> and \<^verbatim>\<open>ValueError\<close>
  does not catch: no fallback is substituted and the endpoint answers 500. The reply
  \<^verbatim>\<open>85\<close> reaches the parser unchanged.
\<close>

theorem scalar_reply_escapes_fallback:
  "(json_loads (clean_eval_text content) = Some (JObj kvs)
      \<and> (''score'' \<notin> fst ` set kvs \<or> ''feedback'' \<notin> fst ` set kvs) \<longrightarrow>
        theory_evaluation json_loads content = Inr theory_fallback
        \<and> coding_evaluation json_loads content = Inr coding_fallback
        \<and> py_getitem theory_fallback ''score'' = Inr (JInt 50)
        \<and> py_getitem coding_fallback ''score'' = Inr (JInt 50)
        \<and> (\<exists>r. theory_answer_result json_loads content = Inr r \<and> tr_score r = JInt 50)
        \<and> (\<exists>r. coding_answer_result json_loads content = Inr r \<and> cr_score r = JInt 50))
   \<and> (json_loads (clean_eval_text content) = Some v
      \<and> (v = JNull \<or> v = JBool b \<or> v = JInt n \<or> v = JFloat q) \<longrightarrow>
        theory_evaluation json_loads content = Inl (TypeError ''argument is not iterable'')
        \<and> coding_evaluation json_loads content = Inl (TypeError ''argument is not iterable'')
        \<and> http_status (submit_mock_test_handlers (theory_answer_result json_loads content)) = 500
        \<and> http_status (submit_mock_test_handlers (coding_answer_result json_loads content)) = 500)
   \<and> clean_eval_text ''85'' = ''85''"
proof (intro conjI impI)
  assume h: "json_loads (clean_eval_text content) = Some (JObj kvs)
      \<and> (''score'' \<notin> fst ` set kvs \<or> ''feedback'' \<notin> fst ` set kvs)"
  then have h1: "json_loads (clean_eval_text content) = Some (JObj kvs)"
    and h2: "''score'' \<notin> fst ` set kvs \<or> ''feedback'' \<notin> fst ` set kvs" by blast+
  show t: "theory_evaluation json_loads content = Inr theory_fallback"
    unfolding theory_evaluation_def using h1 h2 by (rule parse_evaluation_missing)
  show c: "coding_evaluation json_loads content = Inr coding_fallback"
    unfolding coding_evaluation_def using h1 h2 by (rule parse_evaluation_missing)
  show "py_getitem theory_fallback ''score'' = Inr (JInt 50)"
    by (simp add: theory_fallback_def)
  show "py_getitem coding_fallback ''score'' = Inr (JInt 50)"
    by (simp add: coding_fallback_def)
  show "\<exists>r. theory_answer_result json_loads content = Inr r \<and> tr_score r = JInt 50"
    by (simp add: theory_answer_result_def t try_bind_def theory_result_of_def theory_fallback_def)
  show "\<exists>r. coding_answer_result json_loads content = Inr r \<and> cr_score r = JInt 50"
    by (simp add: coding_answer_result_def c try_bind_def coding_result_of_def coding_fallback_def)
next
  assume h: "json_loads (clean_eval_text content) = Some v
      \<and> (v = JNull \<or> v = JBool b \<or> v = JInt n \<or> v = JFloat q)"
  then have e: "parse_evaluation json_loads fallback (clean_eval_text content)
      = Inl (TypeError ''argument is not iterable'')" for fallback
    by (auto simp: parse_evaluation_def try_bind_def)
  show t: "theory_evaluation json_loads content = Inl (TypeError ''argument is not iterable'')"
    by (simp add: theory_evaluation_def e)
  show c: "coding_evaluation json_loads content = Inl (TypeError ''argument is not iterable'')"
    by (simp add: coding_evaluation_def e)
  show "http_status (submit_mock_test_handlers (theory_answer_result json_loads content)) = 500"
    by (simp add: theory_answer_result_def t try_bind_def submit_mock_test_handlers_def)
  show "http_status (submit_mock_test_handlers (coding_answer_result json_loads content)) = 500"
    by (simp add: coding_answer_result_def c try_bind_def submit_mock_test_handlers_def)
next
  show "clean_eval_text ''85'' = ''85''"
    by (simp add: clean_eval_text_def strip_def lstrip_def rstrip_def is_space_def
        sub_leading_def sub_trailing_fence_def starts_with_def search_object_def)
qed

theorem scalar_reply_escapes_fallback_witness:
  "theory_evaluation (\<lambda>s. if s = ''85'' then Some (JInt 85) else None) ''85''
     = Inl (TypeError ''argument is not iterable'')
   \<and> http_status (submit_mock_test_handlers
        (theory_answer_result (\<lambda>s. if s = ''85'' then Some (JInt 85) else None) ''85'')) = 500
   \<and> theory_evaluation (\<lambda>s. Some (JObj [(''score'', JInt 80)])) ''85'' = Inr theory_fallback"
proof -
  note bad = scalar_reply_escapes_fallback
    [where json_loads = "\<lambda>s. if s = ''85'' then Some (JInt 85) else None" and content = "''85''"
      and v = "JInt 85" and n = 85 and kvs = "[]"]
  note good = scalar_reply_escapes_fallback
    [where json_loads = "\<lambda>s. Some (JObj [(''score'', JInt 80)])" and content = "''85''"
      and kvs = "[(''score'', JInt 80)]" and v = JNull]
  from bad good show ?thesis by simp
qed

section \<open>Verification of reorder scoring\<close>

lemma correct_count_card:
  "correct_count correct_order user_order =
     card {i. i < length user_order \<and> i < length correct_order \<and> user_order ! i = correct_order ! i}"
proof -
  let ?P = "\<lambda>(i, item). i < length correct_order \<and> item = correct_order ! i"
  have "correct_count correct_order user_order =
      card {i. i < length (enumerate 0 user_order) \<and> ?P (enumerate 0 user_order ! i)}"
    by (simp only: correct_count_def length_filter_conv_card)
  also have "{i. i < length (enumerate 0 user_order) \<and> ?P (enumerate 0 user_order ! i)} =
      {i. i < length user_order \<and> i < length correct_order \<and> user_order ! i = correct_order ! i}"
    by (auto simp: nth_enumerate_eq)
  finally show ?thesis .
qed

text \<open>
  Claim C4. For a non-empty canonical order the score is the number of positions at which
  the submitted order agrees with the canonical one, divided by the number of canonical
  items, times 100. It is a function of the two orders alone. For the canonical order
  A, B, C, D and the submitted order B, A, C, D it is 50.
\<close>

theorem reorder_score_deterministic:
  assumes "correct_order \<noteq> []"
  shows "reorder_score correct_order user_order =
      Inr (of_nat (card {i. i < length user_order \<and> i < length correct_order
                            \<and> user_order ! i = correct_order ! i})
             / of_nat (length correct_order) * 100)
    \<and> reorder_score [''A'', ''B'', ''C'', ''D''] [''B'', ''A'', ''C'', ''D''] = Inr 50"
proof
  show "reorder_score correct_order user_order =
      Inr (of_nat (card {i. i < length user_order \<and> i < length correct_order
                            \<and> user_order ! i = correct_order ! i})
             / of_nat (length correct_order) * 100)"
    using assms by (simp add: reorder_score_def correct_count_card)
  show "reorder_score [''A'', ''B'', ''C'', ''D''] [''B'', ''A'', ''C'', ''D''] = Inr 50"
    by (simp add: reorder_score_def correct_count_def enumerate_eq_zip upt_conv_Cons)
qed

theorem reorder_score_deterministic_witness:
  "[''A'', ''B'', ''C'', ''D''] \<noteq> []
   \<and> reorder_score [''A'', ''B'', ''C'', ''D''] [''B'', ''A'', ''C'', ''D''] = Inr (2 / 4 * 100)"
proof -
  have h: "[''A'', ''B'', ''C'', ''D''] \<noteq> []" by simp
  have "reorder_score [''A'', ''B'', ''C'', ''D''] [''B'', ''A'', ''C'', ''D''] = Inr 50"
    by (rule reorder_score_deterministic [OF h, THEN conjunct2])
  with h show ?thesis by simp
qed

section \<open>Verification of the missing-precondition responses\<close>

lemma str_nat_400: "str_nat 400 = ''400''"
  by code_simp

lemma str_nat_404: "str_nat 404 = ''404''"
  by code_simp

text \<open>
  Claim C6, evaluated on the code. In \<^verbatim>\<open>generate_quiz\<close> and \<^verbatim>\<open>submit_quiz\<close> the
  \<^verbatim>\<open>HTTPException\<close> of the missing precondition is caught by the endpoint's own
  catch-all handler: the response has status 500, and the intended status is only the
  prefix of the detail. The sibling \<^verbatim>\<open>submit_mock_test\<close>, which re-raises an
  \<^verbatim>\<open>HTTPException\<close>, answers 404.
\<close>

theorem missing_precondition_status:
  "(count_documents docs (qr_notebook_id request) = 0 \<longrightarrow>
      generate_quiz ranking finish docs request quizzes
        = (Inl (HTTPException 500
             ''400: No documents uploaded. Please upload documents first.''), quizzes)
      \<and> http_status (fst (generate_quiz ranking finish docs request quizzes)) = 500)
   \<and> (quizzes_store quiz_id = None \<longrightarrow>
      submit_quiz score quizzes_store quiz_id answers
        = Inl (HTTPException 500 ''404: Quiz not found'')
      \<and> http_status (submit_quiz score quizzes_store quiz_id answers) = 500)
   \<and> (mock_tests_store test_id = None \<longrightarrow>
      http_status (submit_mock_test_lookup evaluate mock_tests_store test_id test_answers) = 404)"
  by (simp add: generate_quiz_def generate_quiz_body_def generate_quiz_handlers_def
      submit_quiz_def submit_quiz_body_def handle_500_def submit_mock_test_lookup_def
      submit_mock_test_handlers_def str_nat_400 str_nat_404)

theorem missing_precondition_status_witness:
  "http_status (fst (generate_quiz (\<lambda>i. Inr []) (\<lambda>cs q. (Inr (), q)) ([] :: nat document list)
      \<lparr>qr_notebook_id = ''n1'', qr_document_ids = None, qr_num_questions = 5,
        qr_difficulty = ''medium''\<rparr> ())) = 500
   \<and> http_status (submit_quiz (\<lambda>q a. Inr ()) (Map.empty :: string \<rightharpoonup> unit) ''q1'' ()) = 500
   \<and> http_status (submit_mock_test_lookup (\<lambda>q a. Inr ()) (Map.empty :: string \<rightharpoonup> unit)
        ''t1'' ()) = 404"
  using missing_precondition_status
    [of "[] :: nat document list"
      "\<lparr>qr_notebook_id = ''n1'', qr_document_ids = None, qr_num_questions = 5,
        qr_difficulty = ''medium''\<rparr>"
      "\<lambda>i. Inr []" "\<lambda>cs q. (Inr (), q)" "()" "Map.empty :: string \<rightharpoonup> unit" "''q1''"
      "\<lambda>q a. Inr ()" "()" "Map.empty :: string \<rightharpoonup> unit" "''t1''" "\<lambda>q a. Inr ()" "()"]
  by (simp add: count_documents_def)

section \<open>Verification of the notebook reads\<close>

lemma notebook_helper_count:
  "nr_document_count (notebook_helper oid_str (nb\<lparr>nb_document_count := Some n\<rparr>)) = n"
  "nr_id (notebook_helper oid_str (nb\<lparr>nb_document_count := Some n\<rparr>)) = oid_str (nb_oid nb)"
  by (simp_all add: notebook_helper_def)

lemma find_notebook_oid: "find_notebook nbs oid = Some nb \<Longrightarrow> nb_oid nb = oid"
  by (auto simp: find_notebook_def find_Some_iff)

text \<open>
  Claim C10, as the code has it. The \<^verbatim>\<open>document_count\<close> of every notebook returned by
  \<^verbatim>\<open>get_notebooks\<close> is the number of documents whose \<^verbatim>\<open>notebook_id\<close> is the
  printed id of that notebook. The one returned by \<^verbatim>\<open>get_notebook\<close> for a notebook that
  is found is the number of documents whose \<^verbatim>\<open>notebook_id\<close> is the requested string;
  that is the count for the notebook found when the request is the printed form of its id.
  Neither depends on the counter stored with the notebook.
\<close>

theorem document_count_is_live_count:
  "map nr_document_count (get_notebooks oid_str st)
     = map (\<lambda>nb. int (count_documents (documents st) (oid_str (nb_oid nb))))
         (rev (sort_key nb_created_at (notebooks st)))
   \<and> (\<forall>r \<in> set (get_notebooks oid_str st). \<exists>nb \<in> set (notebooks st).
         nr_id r = oid_str (nb_oid nb)
         \<and> nr_document_count r
             = int (length (filter (\<lambda>d. doc_notebook_id d = Some (oid_str (nb_oid nb)))
                      (documents st))))
   \<and> (ObjectId notebook_id = Inr oid \<and> find_notebook (notebooks st) oid = Some nb \<longrightarrow>
        (\<exists>r. get_notebook ObjectId oid_str st notebook_id = Inr r
           \<and> nr_id r = oid_str oid
           \<and> nr_document_count r
               = int (length (filter (\<lambda>d. doc_notebook_id d = Some notebook_id)
                        (documents st)))
           \<and> (oid_str oid = notebook_id \<longrightarrow>
                nr_document_count r
                  = int (length (filter (\<lambda>d. doc_notebook_id d = Some (nr_id r))
                           (documents st))))))"
proof (intro conjI)
  show "map nr_document_count (get_notebooks oid_str st)
     = map (\<lambda>nb. int (count_documents (documents st) (oid_str (nb_oid nb))))
         (rev (sort_key nb_created_at (notebooks st)))"
    by (simp add: get_notebooks_def notebook_helper_count comp_def)
  show "\<forall>r \<in> set (get_notebooks oid_str st). \<exists>nb \<in> set (notebooks st).
         nr_id r = oid_str (nb_oid nb)
         \<and> nr_document_count r
             = int (length (filter (\<lambda>d. doc_notebook_id d = Some (oid_str (nb_oid nb)))
                      (documents st)))"
    by (auto simp: get_notebooks_def notebook_helper_count count_documents_def)
  show "ObjectId notebook_id = Inr oid \<and> find_notebook (notebooks st) oid = Some nb \<longrightarrow>
        (\<exists>r. get_notebook ObjectId oid_str st notebook_id = Inr r
           \<and> nr_id r = oid_str oid
           \<and> nr_document_count r
               = int (length (filter (\<lambda>d. doc_notebook_id d = Some notebook_id)
                        (documents st)))
           \<and> (oid_str oid = notebook_id \<longrightarrow>
                nr_document_count r
                  = int (length (filter (\<lambda>d. doc_notebook_id d = Some (nr_id r))
                           (documents st)))))"
  proof
    assume h: "ObjectId notebook_id = Inr oid \<and> find_notebook (notebooks st) oid = Some nb"
    then have "nb_oid nb = oid" by (auto dest: find_notebook_oid)
    with h show "\<exists>r. get_notebook ObjectId oid_str st notebook_id = Inr r
           \<and> nr_id r = oid_str oid
           \<and> nr_document_count r
               = int (length (filter (\<lambda>d. doc_notebook_id d = Some notebook_id)
                        (documents st)))
           \<and> (oid_str oid = notebook_id \<longrightarrow>
                nr_document_count r
                  = int (length (filter (\<lambda>d. doc_notebook_id d = Some (nr_id r))
                           (documents st))))"
      by (simp add: get_notebook_def get_notebook_body_def try_bind_def handle_500_def
          notebook_helper_count count_documents_def)
  qed
qed

theorem document_count_is_live_count_witness:
  "map nr_document_count (get_notebooks (\<lambda>oid. oid) example_store) = [1]
   \<and> (\<exists>r. get_notebook Inr (\<lambda>oid. oid) example_store ''n1'' = Inr r
         \<and> nr_id r = ''n1'' \<and> nr_document_count r = 1)"
proof -
  have h: "(Inr :: string \<Rightarrow> exn + string) ''n1'' = Inr ''n1''
      \<and> find_notebook (notebooks example_store) ''n1'' = Some (hd (notebooks example_store))"
    by (simp add: example_store_def find_notebook_def)
  from document_count_is_live_count [of "\<lambda>oid. oid" example_store Inr "''n1''" "''n1''"
      "hd (notebooks example_store)"] h
  have "map nr_document_count (get_notebooks (\<lambda>oid. oid) example_store)
      = map (\<lambda>nb. int (count_documents (documents example_store) (nb_oid nb)))
          (rev (sort_key nb_created_at (notebooks example_store)))"
    and "\<exists>r. get_notebook Inr (\<lambda>oid. oid) example_store ''n1'' = Inr r
      \<and> nr_id r = ''n1''
      \<and> nr_document_count r
        = int (length (filter (\<lambda>d. doc_notebook_id d = Some ''n1'') (documents example_store)))"
    by blast+
  then show ?thesis
    by (simp add: example_store_def count_documents_def)
qed

text \<open>
  Claim C10, as stated, fails for \<^verbatim>\<open>get_notebook\<close>: a request that writes the id of
  the notebook in upper case finds the notebook, but counts the documents whose
  \<^verbatim>\<open>notebook_id\<close> is the upper-case string. The notebook has one document and the
  response says 0, while \<^verbatim>\<open>get_notebooks\<close> says 1.
\<close>

theorem get_notebook_counts_by_request_string:
  "get_notebook hex_ObjectId (\<lambda>oid. oid) hex_store ''65A1B2C3D4E5F60718293A4B''
     = Inr \<lparr>nr_id = ''65a1b2c3d4e5f60718293a4b'', nr_name = ''physics'',
         nr_color = ''#2f5bea'', nr_icon = [CHR 0xF0, CHR 0x9F, CHR 0x93, CHR 0x9A],
         nr_created_at = ''2024-01-01T00:00:00'', nr_document_count = 0\<rparr>
   \<and> count_documents (documents hex_store) ''65a1b2c3d4e5f60718293a4b'' = 1
   \<and> map nr_document_count (get_notebooks (\<lambda>oid. oid) hex_store) = [1]"
  by (simp add: get_notebook_def get_notebook_body_def try_bind_def handle_500_def
      hex_ObjectId_def is_hex_def lower_hex_def hex_store_def find_notebook_def
      notebook_helper_def count_documents_def get_notebooks_def)

section \<open>Verification of the chunk cache\<close>

text \<open>The function returns for every document: it neither raises nor runs for ever.\<close>

lemma ensure_returns:
  "\<exists>cs docs'. ensure_document_chunks exists read_text update_ok doc docs = Returned cs docs'"
proof -
  have c: "chunk_text_default t \<noteq> None" for t
    using chunk_text_default_returns [of t] by auto
  show ?thesis
    unfolding ensure_document_chunks_def Let_def
    by (auto simp: c split: option.splits sum.splits)
qed

text \<open>
  Claim C9. For a document without cached chunks, when no path can be resolved (no
  \<^verbatim>\<open>file_path\<close>, and \<^verbatim>\<open>notebook_id\<close> or \<^verbatim>\<open>doc_id\<close> missing), when the resolved
  file does not exist, or when reading and extracting it raises, the function returns the
  empty list and leaves the document collection as it was.
\<close>

theorem ensure_chunks_no_content:
  assumes "doc_chunks doc = None \<or> doc_chunks doc = Some []"
    and "resolve_pdf_path doc = None
      \<or> (\<exists>p. resolve_pdf_path doc = Some p \<and> (\<not> exists p \<or> (\<exists>e. read_text p = Inl e)))"
  shows "ensure_document_chunks exists read_text update_ok doc docs = Returned [] docs
    \<and> (resolve_pdf_path doc = None \<longleftrightarrow>
         (doc_file_path doc = None \<or> doc_file_path doc = Some [])
         \<and> (doc_notebook_id doc = None \<or> doc_notebook_id doc = Some []
            \<or> doc_id doc = None \<or> doc_id doc = Some []))"
proof
  show "ensure_document_chunks exists read_text update_ok doc docs = Returned [] docs"
    using assms by (auto simp: ensure_document_chunks_def)
  show "resolve_pdf_path doc = None \<longleftrightarrow>
         (doc_file_path doc = None \<or> doc_file_path doc = Some [])
         \<and> (doc_notebook_id doc = None \<or> doc_notebook_id doc = Some []
            \<or> doc_id doc = None \<or> doc_id doc = Some [])"
    by (auto simp: resolve_pdf_path_def convention_path_def split: option.splits)
qed

theorem ensure_chunks_no_content_witness:
  "ensure_document_chunks (\<lambda>p. False) (\<lambda>p. Inl (OtherError ''unreadable'')) True
     \<lparr>doc_oid = Some (10::nat), doc_id = Some ''d1'', doc_notebook_id = Some ''1'',
       doc_filename = ''a.pdf'', doc_uploaded_at = ''2024-01-02T00:00:00'',
       doc_chunks_count = 0, doc_chunks = Some [], doc_file_path = None\<rparr> []
   = Returned [] []"
  using ensure_chunks_no_content [of
     "\<lparr>doc_oid = Some (10::nat), doc_id = Some ''d1'', doc_notebook_id = Some ''1'',
       doc_filename = ''a.pdf'', doc_uploaded_at = ''2024-01-02T00:00:00'',
       doc_chunks_count = 0, doc_chunks = Some [], doc_file_path = None\<rparr>"
     "\<lambda>p. False" "\<lambda>p. Inl (OtherError ''unreadable'')" True "[]"]
  by (simp add: resolve_pdf_path_def convention_path_def)

section \<open>Verification of the diverse sampling\<close>

subsection \<open>Keeping the first occurrence\<close>

lemma remdups_append_mem:
  "x \<in> set zs \<Longrightarrow> remdups (ys @ x # zs) = remdups (ys @ zs)"
  by (induction ys) auto

lemma remdups_append_remdups:
  "remdups (ys @ remdups zs) = remdups (ys @ zs)"
  by (induction ys) auto

lemma first_seen_distinct:
  "distinct xs \<Longrightarrow> rev (remdups (rev xs)) = xs"
  by (simp add: distinct_remdups_id)

lemma first_seen_skip:
  assumes "x \<in> set xs"
  shows "rev (remdups (rev (xs @ x # ys))) = rev (remdups (rev (xs @ ys)))"
  using remdups_append_mem [of x "rev xs" "rev ys"] assms by simp

lemma first_seen_idem:
  "rev (remdups (rev (rev (remdups (rev xs)) @ ys))) = rev (remdups (rev (xs @ ys)))"
  using remdups_append_remdups [of "rev ys" "rev xs"] by simp

lemma add_matches_texts:
  assumes "distinct (map sc_text acc)"
  shows "map sc_text (add_matches acc ms)
    = rev (remdups (rev (map sc_text acc @ map m_text ms)))"
  using assms unfolding add_matches_def
proof (induction ms arbitrary: acc)
  case Nil
  then show ?case by (simp add: first_seen_distinct)
next
  case (Cons m ms)
  show ?case
  proof (cases "m_text m \<in> set (map sc_text acc)")
    case True
    then have "add_match m acc = acc" by (simp add: add_match_def)
    with Cons True show ?thesis
      using first_seen_skip [of "m_text m" "map sc_text acc" "map m_text ms"] by simp
  next
    case False
    let ?acc = "acc @ [\<lparr>sc_text = m_text m, sc_filename = m_filename m\<rparr>]"
    from False have step: "add_match m acc = ?acc" by (simp add: add_match_def)
    from False Cons.prems have "distinct (map sc_text ?acc)" by simp
    from Cons.IH [OF this] step show ?thesis by simp
  qed
qed

lemma add_matches_from:
  "set (add_matches acc ms)
    \<subseteq> set acc \<union> (\<lambda>m. \<lparr>sc_text = m_text m, sc_filename = m_filename m\<rparr>) ` set ms"
  unfolding add_matches_def
proof (induction ms arbitrary: acc)
  case Nil
  show ?case by simp
next
  case (Cons m ms)
  have "set (add_match m acc)
      \<subseteq> set acc \<union> {\<lparr>sc_text = m_text m, sc_filename = m_filename m\<rparr>}"
    by (auto simp: add_match_def)
  with Cons [of "add_match m acc"] show ?case by auto
qed

lemma sample_loop_issued: "fst (sample_loop ranking remaining issued acc) \<le> issued + remaining"
proof (induction remaining arbitrary: issued acc)
  case 0
  show ?case by simp
next
  case (Suc remaining)
  show ?case
  proof (cases "ranking issued")
    case (Inl e)
    then show ?thesis by (simp add: index_query_def)
  next
    case (Inr ms)
    with Suc [of "Suc issued" "add_matches acc (take 3 ms)"] show ?thesis
      by (simp add: index_query_def)
  qed
qed

lemma sample_loop_success:
  assumes "\<forall>i. issued \<le> i \<and> i < issued + remaining \<longrightarrow> ranking i = Inr (rs i)"
    and "distinct (map sc_text acc)"
  shows "\<exists>all_chunks. sample_loop ranking remaining issued acc = (issued + remaining, Inr all_chunks)
    \<and> map sc_text all_chunks
        = rev (remdups (rev (map sc_text acc
            @ map m_text (concat (map (\<lambda>i. take 3 (rs i)) [issued..<issued + remaining])))))
    \<and> set all_chunks \<subseteq> set acc
        \<union> (\<lambda>m. \<lparr>sc_text = m_text m, sc_filename = m_filename m\<rparr>)
            ` set (concat (map (\<lambda>i. take 3 (rs i)) [issued..<issued + remaining]))"
  using assms
proof (induction remaining arbitrary: issued acc)
  case 0
  then show ?case by (simp add: first_seen_distinct)
next
  case (Suc remaining)
  let ?ms = "take 3 (rs issued)"
  let ?acc = "add_matches acc ?ms"
  from Suc.prems(1) have here: "ranking issued = Inr (rs issued)" by simp
  have texts: "map sc_text ?acc = rev (remdups (rev (map sc_text acc @ map m_text ?ms)))"
    by (rule add_matches_texts [OF Suc.prems(2)])
  then have dist: "distinct (map sc_text ?acc)" by simp
  from Suc.prems(1)
  have later: "\<forall>i. Suc issued \<le> i \<and> i < Suc issued + remaining \<longrightarrow> ranking i = Inr (rs i)"
    by simp
  from Suc.IH [OF later dist] obtain all_chunks where
    run: "sample_loop ranking remaining (Suc issued) ?acc = (Suc issued + remaining, Inr all_chunks)"
    and tx: "map sc_text all_chunks
        = rev (remdups (rev (map sc_text ?acc
            @ map m_text (concat (map (\<lambda>i. take 3 (rs i)) [Suc issued..<Suc issued + remaining])))))"
    and from': "set all_chunks \<subseteq> set ?acc
        \<union> (\<lambda>m. \<lparr>sc_text = m_text m, sc_filename = m_filename m\<rparr>)
            ` set (concat (map (\<lambda>i. take 3 (rs i)) [Suc issued..<Suc issued + remaining]))"
    by blast
  have range: "[issued..<issued + Suc remaining] = issued # [Suc issued..<Suc issued + remaining]"
    by (simp add: upt_conv_Cons)
  have 1: "sample_loop ranking (Suc remaining) issued acc
      = (issued + Suc remaining, Inr all_chunks)"
    using here run by (simp add: index_query_def)
  have 2: "map sc_text all_chunks
        = rev (remdups (rev (map sc_text acc
            @ map m_text (concat (map (\<lambda>i. take 3 (rs i)) [issued..<issued + Suc remaining])))))"
    unfolding range tx texts by (simp only: first_seen_idem) simp
  have 3: "set all_chunks \<subseteq> set acc
        \<union> (\<lambda>m. \<lparr>sc_text = m_text m, sc_filename = m_filename m\<rparr>)
            ` set (concat (map (\<lambda>i. take 3 (rs i)) [issued..<issued + Suc remaining]))"
    using from' add_matches_from [of acc ?ms] unfolding range by auto
  from 1 2 3 show ?case by blast
qed

lemma select_chunks_prefix: "\<exists>j. select_chunks all_chunks n = take j all_chunks"
  by (auto simp: select_chunks_def py_slice_def Let_def)

lemma select_chunks_take:
  "0 \<le> n \<Longrightarrow> select_chunks all_chunks n = take (nat (n * 2)) all_chunks"
  by (auto simp: select_chunks_def py_slice_def Let_def min_def)

text \<open>
  Claim C8. The loop issues at most \<open>min (2 * n) 10\<close> queries. When the queries succeed
  it issues exactly that many, and the texts it collects are the texts of the three best
  matches of every query, each kept once, at its first occurrence. The selection is a
  prefix of that list: its texts are pairwise different, each selected chunk is one of the
  matches, and there are no more of them than different texts among the matches. The loop
  is a recursion on the number of queries left, so it ends whatever the queries return.
\<close>

theorem diverse_sampling:
  "fst (collect_chunks ranking n) \<le> nat (min (2 * n) 10)
   \<and> fst (collect_chunks ranking n) \<le> 10
   \<and> ((\<forall>i < nat (min (2 * n) 10). ranking i = Inr (rs i)) \<longrightarrow>
        (\<exists>all_chunks selected.
           collect_chunks ranking n = (nat (min (2 * n) 10), Inr all_chunks)
           \<and> map sc_text all_chunks
               = first_seen (map m_text (pooled_matches rs (nat (min (2 * n) 10))))
           \<and> sample_chunks ranking n = Inr selected
           \<and> (\<exists>j. selected = take j all_chunks)
           \<and> distinct (map sc_text selected)
           \<and> set selected \<subseteq> chunk_of_match ` set (pooled_matches rs (nat (min (2 * n) 10)))
           \<and> length selected \<le> card (m_text ` set (pooled_matches rs (nat (min (2 * n) 10))))))"
proof (intro conjI impI)
  let ?k = "nat (min (2 * n) 10)"
  have k: "nat (num_queries n) = ?k" by (simp add: num_queries_def mult.commute)
  show issued: "fst (collect_chunks ranking n) \<le> ?k"
    using sample_loop_issued [of ranking ?k 0 "[]"] by (simp add: collect_chunks_def k)
  then show "fst (collect_chunks ranking n) \<le> 10" by linarith
  assume ok: "\<forall>i < ?k. ranking i = Inr (rs i)"
  let ?pool = "pooled_matches rs ?k"
  from ok have ok': "\<forall>i. 0 \<le> i \<and> i < 0 + ?k \<longrightarrow> ranking i = Inr (rs i)" by simp
  have d: "distinct (map sc_text ([] :: sampled_chunk list))" by simp
  from sample_loop_success [OF ok' d] obtain all_chunks where
    run: "collect_chunks ranking n = (?k, Inr all_chunks)"
    and tx: "map sc_text all_chunks = first_seen (map m_text ?pool)"
    and src: "set all_chunks \<subseteq> chunk_of_match ` set ?pool"
    unfolding collect_chunks_def k pooled_matches_def first_seen_def
    by (auto simp: chunk_of_match_def [abs_def])
  define selected where "selected = select_chunks all_chunks n"
  from run have res: "sample_chunks ranking n = Inr selected"
    by (simp add: sample_chunks_def selected_def)
  from select_chunks_prefix [of all_chunks n] obtain j where j: "selected = take j all_chunks"
    unfolding selected_def by blast
  from tx have "distinct (map sc_text all_chunks)" by (simp add: first_seen_def)
  then have dist: "distinct (map sc_text selected)"
    unfolding j by (simp add: take_map [symmetric])
  from src have sub: "set selected \<subseteq> chunk_of_match ` set ?pool"
    unfolding j using set_take_subset [of j all_chunks] by blast
  have "length selected = card (set (map sc_text selected))"
    using distinct_card [OF dist] by simp
  also have "\<dots> \<le> card (m_text ` set ?pool)"
  proof (rule card_mono)
    show "finite (m_text ` set ?pool)" by simp
    show "set (map sc_text selected) \<subseteq> m_text ` set ?pool"
      using sub by (auto simp: chunk_of_match_def)
  qed
  finally have len: "length selected \<le> card (m_text ` set ?pool)" .
  from run tx res j dist sub len
  show "\<exists>all_chunks selected.
           collect_chunks ranking n = (?k, Inr all_chunks)
           \<and> map sc_text all_chunks = first_seen (map m_text ?pool)
           \<and> sample_chunks ranking n = Inr selected
           \<and> (\<exists>j. selected = take j all_chunks)
           \<and> distinct (map sc_text selected)
           \<and> set selected \<subseteq> chunk_of_match ` set ?pool
           \<and> length selected \<le> card (m_text ` set ?pool)"
    by blast
qed

lemma two_chunk_pool:
  "m_text ` set (pooled_matches (\<lambda>i. projr (two_chunk_ranking i)) k) \<subseteq> {''alpha'', ''beta''}"
  by (auto simp: pooled_matches_def two_chunk_ranking_def)

theorem diverse_sampling_witness:
  "fst (collect_chunks two_chunk_ranking 5) \<le> 10
   \<and> (\<exists>selected. sample_chunks two_chunk_ranking 5 = Inr selected
         \<and> distinct (map sc_text selected) \<and> length selected \<le> 2)"
proof -
  let ?rs = "\<lambda>i. projr (two_chunk_ranking i)"
  have ok: "\<forall>i < nat (min (2 * 5) 10). two_chunk_ranking i = Inr (?rs i)"
    by (simp add: two_chunk_ranking_def)
  from diverse_sampling [of two_chunk_ranking 5 ?rs] ok obtain selected where
    le: "fst (collect_chunks two_chunk_ranking 5) \<le> 10"
    and res: "sample_chunks two_chunk_ranking 5 = Inr selected"
    and dist: "distinct (map sc_text selected)"
    and len: "length selected
      \<le> card (m_text ` set (pooled_matches ?rs (nat (min (2 * 5) 10))))"
    by blast
  have "card (m_text ` set (pooled_matches ?rs (nat (min (2 * 5) 10))))
      \<le> card {''alpha'', ''beta''}"
    by (rule card_mono [OF _ two_chunk_pool]) simp
  also have "\<dots> = 2" by simp
  finally have "length selected \<le> 2" using len by linarith
  with le res dist show ?thesis by blast
qed

section \<open>Verification of the upload\<close>

subsection \<open>Vector keys and the index\<close>
























subsection \<open>The loop over the files\<close>




subsection \<open>Chunks and their vector records\<close>





end
